theory Spec2Isabelle
  imports Complex_Main "HOL-Library.Word"
begin

section \<open>Bytes, errors, Python list indexing\<close>

type_synonym byte = "8 word"
type_synonym bytes = "byte list"

text \<open>The typed error hierarchy of \<^verbatim>\<open>core/errors.py\<close> (the classes the modelled code raises),
  together with the built-in exceptions that leave the modelled functions.\<close>

datatype error =
  TransferError | CryptoError | DiscoveryError | ValueError | ZeroDivisionError | RecursionError
  | OverflowError

text \<open>Python's \<^verbatim>\<open>xs[i]\<close>: a negative index counts from the end, an index out of range raises
  \<^verbatim>\<open>IndexError\<close> (here \<open>None\<close>).\<close>

definition py_index :: "'a list \<Rightarrow> int \<Rightarrow> 'a option" where
  "py_index xs i =
     (if 0 \<le> i \<and> i < int (length xs) then Some (xs ! nat i)
      else if i < 0 \<and> - int (length xs) \<le> i then Some (xs ! nat (int (length xs) + i))
      else None)"

section \<open>transfer/merkle.py\<close>

text \<open>\<^verbatim>\<open>hashlib.blake2b(data, digest_size=32).digest()\<close> is a primitive of the standard
  library. It is the parameter \<open>H\<close> of every function below; the only fact used about it is
  that its digest has 32 bytes.\<close>

definition digest32 :: "(bytes \<Rightarrow> bytes) \<Rightarrow> bool" where
  "digest32 H = (\<forall>x. length (H x) = 32)"

definition hash_chunk :: "(bytes \<Rightarrow> bytes) \<Rightarrow> bytes \<Rightarrow> bytes" where
  "hash_chunk H data = H data"

definition hash_pair :: "(bytes \<Rightarrow> bytes) \<Rightarrow> bytes \<Rightarrow> bytes \<Rightarrow> bytes" where
  "hash_pair H left right = H (left @ right)"

record MerkleProof =
  chunk_index :: int
  chunk_hash :: bytes
  proof_hashes :: "bytes list"

text \<open>The second loop of \<^verbatim>\<open>MerkleProof.verify\<close>.\<close>

fun verify_loop :: "(bytes \<Rightarrow> bytes) \<Rightarrow> bytes \<Rightarrow> int \<Rightarrow> bytes list \<Rightarrow> bytes" where
  "verify_loop H current_hash current_index [] = current_hash"
| "verify_loop H current_hash current_index (proof_hash # rest) =
     verify_loop H
       (if current_index mod 2 = 0 then hash_pair H current_hash proof_hash
        else hash_pair H proof_hash current_hash)
       (current_index div 2) rest"

text \<open>\<^verbatim>\<open>MerkleProof.verify\<close>. The \<^verbatim>\<open>isinstance\<close> tests are discharged by the types; no
  statement of the body can raise on these types, so the \<^verbatim>\<open>except\<close> branch is dead.\<close>

definition verify :: "(bytes \<Rightarrow> bytes) \<Rightarrow> MerkleProof \<Rightarrow> bytes \<Rightarrow> bool" where
  "verify H p root_hash =
     (if length root_hash \<noteq> 32 then False
      else if length (chunk_hash p) \<noteq> 32 then False
      else if chunk_index p < 0 then False
      else if list_ex (\<lambda>proof_hash. length proof_hash \<noteq> 32) (proof_hashes p) then False
      else verify_loop H (chunk_hash p) (chunk_index p) (proof_hashes p) = root_hash)"

record MerkleTree =
  chunk_hashes :: "bytes list"
  tree_levels :: "bytes list list"
  root_hash :: "bytes option"

text \<open>\<^verbatim>\<open>MerkleTree.__init__\<close>: \<^verbatim>\<open>chunk_hashes or []\<close>.\<close>

definition MerkleTree_init :: "bytes list option \<Rightarrow> MerkleTree" where
  "MerkleTree_init hs =
     \<lparr>chunk_hashes = (case hs of None \<Rightarrow> [] | Some l \<Rightarrow> l), tree_levels = [], root_hash = None\<rparr>"

definition invalidate_tree :: "MerkleTree \<Rightarrow> MerkleTree" where
  "invalidate_tree t = t\<lparr>tree_levels := [], root_hash := None\<rparr>"

definition add_chunk_hash :: "MerkleTree \<Rightarrow> bytes \<Rightarrow> error + MerkleTree" where
  "add_chunk_hash t h =
     (if length h \<noteq> 32 then Inl TransferError
      else Inr (invalidate_tree (t\<lparr>chunk_hashes := chunk_hashes t @ [h]\<rparr>)))"

text \<open>The inner \<^verbatim>\<open>for i in range(0, len(current_level), 2)\<close> loop of \<^verbatim>\<open>build_tree\<close>: two
  nodes at a time, a trailing single node is paired with itself.\<close>

fun next_level :: "(bytes \<Rightarrow> bytes) \<Rightarrow> bytes list \<Rightarrow> bytes list" where
  "next_level H [] = []"
| "next_level H [left] = [hash_pair H left left]"
| "next_level H (left # right # rest) = hash_pair H left right # next_level H rest"

lemma length_next_level: "length (next_level H xs) = (length xs + 1) div 2"
  by (induction H xs rule: next_level.induct) simp_all

text \<open>The outer \<^verbatim>\<open>while len(current_level) > 1\<close> loop: the list of levels, leaves first.\<close>

function build_levels :: "(bytes \<Rightarrow> bytes) \<Rightarrow> bytes list \<Rightarrow> bytes list list" where
  "build_levels H current_level =
     (if length current_level > 1
      then current_level # build_levels H (next_level H current_level)
      else [current_level])"
  by pat_completeness auto
termination
  by (relation "measure (\<lambda>(H, l). length l)") (auto simp: length_next_level)

declare build_levels.simps [simp del]

text \<open>\<^verbatim>\<open>MerkleTree.build_tree\<close>: the root and the tree with its cache filled. An
  \<^verbatim>\<open>IndexError\<close> at \<^verbatim>\<open>current_level[0]\<close> would be re-raised as \<^verbatim>\<open>TransferError\<close>.\<close>

definition build_tree :: "(bytes \<Rightarrow> bytes) \<Rightarrow> MerkleTree \<Rightarrow> error + (bytes \<times> MerkleTree)" where
  "build_tree H t =
     (if chunk_hashes t = [] then Inl TransferError
      else (let levels = build_levels H (chunk_hashes t) in
            case py_index (last levels) 0 of
              None \<Rightarrow> Inl TransferError
            | Some r \<Rightarrow> Inr (r, t\<lparr>tree_levels := levels, root_hash := Some r\<rparr>)))"

text \<open>The loop of \<^verbatim>\<open>generate_proof\<close> over \<^verbatim>\<open>self._tree_levels[:-1]\<close>; an \<^verbatim>\<open>IndexError\<close> is
  re-raised as \<^verbatim>\<open>TransferError\<close> by the enclosing \<^verbatim>\<open>try\<close>.\<close>

fun proof_loop :: "bytes list list \<Rightarrow> int \<Rightarrow> error + bytes list" where
  "proof_loop [] current_index = Inr []"
| "proof_loop (level # rest) current_index =
     (let sibling_index = (if current_index mod 2 = 0 then current_index + 1 else current_index - 1)
      in case py_index level (if sibling_index < int (length level) then sibling_index
                              else current_index) of
           None \<Rightarrow> Inl TransferError
         | Some h \<Rightarrow> (case proof_loop rest (current_index div 2) of
                        Inl e \<Rightarrow> Inl e
                      | Inr hs \<Rightarrow> Inr (h # hs)))"

text \<open>\<^verbatim>\<open>MerkleTree.generate_proof\<close>: the proof and the tree (whose cache the call may fill).\<close>

definition ensure_built :: "(bytes \<Rightarrow> bytes) \<Rightarrow> MerkleTree \<Rightarrow> error + MerkleTree" where
  "ensure_built H t =
     (if tree_levels t = []
      then (case build_tree H t of Inl e \<Rightarrow> Inl e | Inr (r, t') \<Rightarrow> Inr t')
      else Inr t)"

definition generate_proof ::
  "(bytes \<Rightarrow> bytes) \<Rightarrow> MerkleTree \<Rightarrow> int \<Rightarrow> error + (MerkleProof \<times> MerkleTree)" where
  "generate_proof H t i =
     (if i < 0 \<or> i \<ge> int (length (chunk_hashes t)) then Inl TransferError
      else case ensure_built H t of
             Inl e \<Rightarrow> Inl e
           | Inr t' \<Rightarrow>
               (case proof_loop (butlast (tree_levels t')) i of
                  Inl e \<Rightarrow> Inl e
                | Inr hs \<Rightarrow>
                    (case py_index (chunk_hashes t') i of
                       None \<Rightarrow> Inl TransferError
                     | Some h \<Rightarrow>
                         Inr (\<lparr>chunk_index = i, chunk_hash = h, proof_hashes = hs\<rparr>, t'))))"

text \<open>\<^verbatim>\<open>MerkleTree.verify_chunk\<close>. The root is rebuilt when the cached one is absent or empty
  (\<^verbatim>\<open>not self._root_hash\<close>); every exception gives \<^verbatim>\<open>False\<close>.\<close>

definition verify_chunk ::
  "(bytes \<Rightarrow> bytes) \<Rightarrow> MerkleTree \<Rightarrow> bytes \<Rightarrow> int \<Rightarrow> MerkleProof \<Rightarrow> bool \<times> MerkleTree" where
  "verify_chunk H t chunk_data i p =
     (if i \<noteq> chunk_index p then (False, t)
      else if hash_chunk H chunk_data \<noteq> chunk_hash p then (False, t)
      else (case (if root_hash t = None \<or> root_hash t = Some []
                  then (case build_tree H t of Inl e \<Rightarrow> Inl e | Inr (r, t') \<Rightarrow> Inr t')
                  else Inr t) of
              Inl e \<Rightarrow> (False, t)
            | Inr t' \<Rightarrow>
                (case root_hash t' of
                   None \<Rightarrow> (False, t')
                 | Some r \<Rightarrow> (verify H p r, t'))))"

text \<open>The folding rule in the words of the specification: starting from the leaf hash and the
  chunk index, each sibling is hashed on the right when the current index is even and on the
  left when it is odd, and the index is halved.\<close>

definition fold_step :: "(bytes \<Rightarrow> bytes) \<Rightarrow> bytes \<times> int \<Rightarrow> bytes \<Rightarrow> bytes \<times> int" where
  "fold_step H = (\<lambda>(current, idx) sibling.
     (if even idx then H (current @ sibling) else H (sibling @ current), idx div 2))"

definition fold_up :: "(bytes \<Rightarrow> bytes) \<Rightarrow> bytes \<Rightarrow> int \<Rightarrow> bytes list \<Rightarrow> bytes" where
  "fold_up H leaf idx siblings = fst (foldl (fold_step H) (leaf, idx) siblings)"

text \<open>A proof as the data model describes it: a non-negative index, a 32-byte leaf hash and
  32-byte siblings.\<close>

definition proof_wf :: "MerkleProof \<Rightarrow> bool" where
  "proof_wf p = (0 \<le> chunk_index p \<and> length (chunk_hash p) = 32 \<and>
                 list_all (\<lambda>h. length h = 32) (proof_hashes p))"

text \<open>A sample digest function with a 32-byte output, for instantiating the results at
  concrete inputs: the byte-wise sum of the 32-byte blocks of the input, the input's length
  added to the first byte.\<close>

fun add_block :: "bytes \<Rightarrow> bytes \<Rightarrow> bytes" where
  "add_block [] ys = []"
| "add_block (x # xs) [] = x # xs"
| "add_block (x # xs) (y # ys) = (x + y) # add_block xs ys"

fun sum_blocks :: "nat \<Rightarrow> bytes \<Rightarrow> bytes \<Rightarrow> bytes" where
  "sum_blocks 0 acc xs = acc"
| "sum_blocks (Suc n) acc xs =
     (if xs = [] then acc else sum_blocks n (add_block acc (take 32 xs)) (drop 32 xs))"

definition sample_digest :: "bytes \<Rightarrow> bytes" where
  "sample_digest xs =
     add_block (sum_blocks (length xs) (replicate 32 0) xs) [of_nat (length xs)]"


subsection \<open>Correctness of proof generation and verification\<close>


lemma length_add_block: "length (add_block xs ys) = length xs"
  by (induction xs ys rule: add_block.induct) simp_all

lemma length_sum_blocks: "length (sum_blocks n acc xs) = length acc"
  by (induction n acc xs rule: sum_blocks.induct) (simp_all add: length_add_block)

lemma digest32_sample: "digest32 sample_digest"
  by (simp add: digest32_def sample_digest_def length_add_block length_sum_blocks)

lemma verify_loop_fold_up: "verify_loop H c i ps = fold_up H c i ps"
  by (induction ps arbitrary: c i)
     (simp_all add: fold_up_def fold_step_def hash_pair_def even_iff_mod_2_eq_zero)

lemma next_level_nth:
  "i < length xs \<Longrightarrow>
   next_level H xs ! (i div 2) =
     (if even i then (if Suc i < length xs then hash_pair H (xs ! i) (xs ! Suc i)
                      else hash_pair H (xs ! i) (xs ! i))
      else hash_pair H (xs ! (i - 1)) (xs ! i))"
proof (induction H xs arbitrary: i rule: next_level.induct)
  case (1 H)
  then show ?case by simp
next
  case (2 H left)
  then show ?case by simp
next
  case (3 H left right rest)
  show ?case
  proof (cases i)
    case 0
    then show ?thesis by simp
  next
    case (Suc j)
    show ?thesis
    proof (cases j)
      case 0
      with Suc show ?thesis by simp
    next
      case (Suc k)
      with \<open>i = Suc j\<close> have i: "i = Suc (Suc k)" by simp
      with 3 have k: "k < length rest" by simp
      have d: "Suc (Suc k) div 2 = Suc (k div 2)" by simp
      show ?thesis using 3(1)[OF k] k unfolding i d
        by (cases k) auto
    qed
  qed
qed

lemma build_levels_nonempty: "build_levels H xs \<noteq> []"
  by (subst build_levels.simps) simp

lemma last_build_levels_length: "xs \<noteq> [] \<Longrightarrow> length (last (build_levels H xs)) = 1"
proof (induction H xs rule: build_levels.induct)
  case (1 H cur)
  show ?case
  proof (cases "length cur > 1")
    case True
    have "length (next_level H cur) > 0" using True by (simp add: length_next_level)
    then have "next_level H cur \<noteq> []" by auto
    with 1 True show ?thesis
      by (subst build_levels.simps) (simp add: build_levels_nonempty)
  next
    case False
    with 1 show ?thesis
      by (subst build_levels.simps) (cases cur; simp)
  qed
qed

lemma py_index_nat: "i < length xs \<Longrightarrow> py_index xs (int i) = Some (xs ! i)"
  by (simp add: py_index_def)

lemma proof_loop_step_even:
  assumes "i < length cur" "even i"
  shows "proof_loop (cur # rest) (int i) =
           (case proof_loop rest (int i div 2) of Inl e \<Rightarrow> Inl e
            | Inr hs \<Rightarrow> Inr ((if Suc i < length cur then cur ! Suc i else cur ! i) # hs))"
proof -
  have m: "int i mod 2 = 0" using assms(2) by presburger
  show ?thesis
  proof (cases "Suc i < length cur")
    case True
    then have "py_index cur (int i + 1) = Some (cur ! Suc i)"
      using py_index_nat[of "Suc i" cur] by (simp add: add.commute)
    with True m show ?thesis by simp
  next
    case False
    with assms(1) m show ?thesis by (simp add: py_index_nat)
  qed
qed

lemma proof_loop_step_odd:
  assumes "i < length cur" "odd i"
  shows "proof_loop (cur # rest) (int i) =
           (case proof_loop rest (int i div 2) of Inl e \<Rightarrow> Inl e
            | Inr hs \<Rightarrow> Inr (cur ! (i - 1) # hs))"
proof -
  have m: "int i mod 2 \<noteq> 0" using assms(2) by presburger
  have pos: "0 < i" using assms(2) by (cases i) auto
  then have e: "int i - 1 = int (i - 1)" by simp
  have "py_index cur (int (i - 1)) = Some (cur ! (i - 1))"
    using assms(1) by (intro py_index_nat) simp
  then have p: "py_index cur (int i - 1) = Some (cur ! (i - 1))"
    unfolding e .
  have lt: "int i - 1 < int (length cur)" using assms(1) by linarith
  show ?thesis using m p lt by (simp split: sum.splits)
qed

lemma proof_loop_correct:
  "i < length xs \<Longrightarrow>
   \<exists>ps. proof_loop (butlast (build_levels H xs)) (int i) = Inr ps \<and>
        verify_loop H (xs ! i) (int i) ps = hd (last (build_levels H xs)) \<and>
        set ps \<subseteq> \<Union> (set ` set (build_levels H xs))"
proof (induction H xs arbitrary: i rule: build_levels.induct)
  case (1 H cur)
  show ?case
  proof (cases "length cur > 1")
    case False
    with 1(2) have "i = 0" by simp
    have lv0: "build_levels H cur = [cur]"
      using False by (subst build_levels.simps) simp
    have "cur ! 0 = hd cur" using 1(2) by (cases cur) simp_all
    with \<open>i = 0\<close> show ?thesis
      by (simp add: lv0)
  next
    case True
    let ?nxt = "next_level H cur"
    have lv: "build_levels H cur = cur # build_levels H ?nxt"
      using True by (subst build_levels.simps) simp
    have bl: "butlast (build_levels H cur) = cur # butlast (build_levels H ?nxt)"
      by (simp add: lv build_levels_nonempty)
    have la: "last (build_levels H cur) = last (build_levels H ?nxt)"
      by (simp add: lv build_levels_nonempty)
    have i2: "i div 2 < length ?nxt" using 1(2) by (simp add: length_next_level)
    have d: "int (i div 2) = int i div 2" by simp
    from 1(1)[OF True i2] obtain ps where
      ps: "proof_loop (butlast (build_levels H ?nxt)) (int i div 2) = Inr ps"
      and vl: "verify_loop H (?nxt ! (i div 2)) (int i div 2) ps = hd (last (build_levels H ?nxt))"
      and sub: "set ps \<subseteq> \<Union> (set ` set (build_levels H ?nxt))"
      unfolding d by blast
    show ?thesis
    proof (cases "even i")
      case ev: True
      let ?s = "if Suc i < length cur then cur ! Suc i else cur ! i"
      have m: "int i mod 2 = 0" using ev by presburger
      have pl: "proof_loop (butlast (build_levels H cur)) (int i) = Inr (?s # ps)"
        unfolding bl proof_loop_step_even[OF 1(2) ev] ps by simp
      have st: "hash_pair H (cur ! i) ?s = ?nxt ! (i div 2)"
        using next_level_nth[OF 1(2), of H] ev by simp
      have "verify_loop H (cur ! i) (int i) (?s # ps) =
              verify_loop H (hash_pair H (cur ! i) ?s) (int i div 2) ps"
        using m by simp
      also have "\<dots> = hd (last (build_levels H cur))"
        unfolding st vl la ..
      finally have v: "verify_loop H (cur ! i) (int i) (?s # ps) = hd (last (build_levels H cur))" .
      have "?s \<in> set cur" using 1(2) by simp
      then have "set (?s # ps) \<subseteq> \<Union> (set ` set (build_levels H cur))"
        using sub unfolding lv by auto
      with pl v show ?thesis by blast
    next
      case od: False
      let ?s = "cur ! (i - 1)"
      have m: "int i mod 2 \<noteq> 0" using od by presburger
      have pl: "proof_loop (butlast (build_levels H cur)) (int i) = Inr (?s # ps)"
        unfolding bl proof_loop_step_odd[OF 1(2) od] ps by simp
      have st: "hash_pair H ?s (cur ! i) = ?nxt ! (i div 2)"
        using next_level_nth[OF 1(2), of H] od by simp
      have "verify_loop H (cur ! i) (int i) (?s # ps) =
              verify_loop H (hash_pair H ?s (cur ! i)) (int i div 2) ps"
        using m by simp
      also have "\<dots> = hd (last (build_levels H cur))"
        unfolding st vl la ..
      finally have v: "verify_loop H (cur ! i) (int i) (?s # ps) = hd (last (build_levels H cur))" .
      have "?s \<in> set cur" using 1(2) by simp
      then have "set (?s # ps) \<subseteq> \<Union> (set ` set (build_levels H cur))"
        using sub unfolding lv by auto
      with pl v show ?thesis by blast
    qed
  qed
qed

lemma next_level_digest:
  "digest32 H \<Longrightarrow> h \<in> set (next_level H xs) \<Longrightarrow> length h = 32"
  by (induction H xs rule: next_level.induct) (auto simp: hash_pair_def digest32_def)

lemma build_levels_digest:
  "digest32 H \<Longrightarrow> \<forall>h\<in>set xs. length h = 32 \<Longrightarrow>
   l \<in> set (build_levels H xs) \<Longrightarrow> h \<in> set l \<Longrightarrow> length h = 32"
proof (induction H xs rule: build_levels.induct)
  case (1 H cur)
  note IH = "1.IH" and prems = "1.prems"
  show ?case
  proof (cases "length cur > 1")
    case True
    have nx: "\<forall>h\<in>set (next_level H cur). length h = 32"
      using prems(1) next_level_digest by blast
    have lv: "build_levels H cur = cur # build_levels H (next_level H cur)"
      using True by (subst build_levels.simps) simp
    from prems(3) have "l = cur \<or> l \<in> set (build_levels H (next_level H cur))"
      unfolding lv by simp
    then show ?thesis
    proof
      assume "l = cur"
      with prems(2,4) show ?thesis by blast
    next
      assume "l \<in> set (build_levels H (next_level H cur))"
      from IH[OF True prems(1) nx this prems(4)] show ?thesis .
    qed
  next
    case False
    have lv0: "build_levels H cur = [cur]"
      using False by (subst build_levels.simps) simp
    from prems(3) have "l = cur" unfolding lv0 by simp
    with prems(2,4) show ?thesis by blast
  qed
qed


lemma build_tree_ok:
  assumes "chunk_hashes t \<noteq> []"
  shows "build_tree H t =
           Inr (hd (last (build_levels H (chunk_hashes t))),
                t\<lparr>tree_levels := build_levels H (chunk_hashes t),
                  root_hash := Some (hd (last (build_levels H (chunk_hashes t))))\<rparr>)"
proof -
  let ?top = "last (build_levels H (chunk_hashes t))"
  have "length ?top = 1" using assms by (rule last_build_levels_length)
  then have "py_index ?top 0 = Some (hd ?top)"
    by (cases ?top) (simp_all add: py_index_def)
  with assms show ?thesis by (simp add: build_tree_def Let_def)
qed

lemma verify_wf_iff:
  assumes "digest32 H" "proof_wf p"
  shows "verify H p R = (fold_up H (chunk_hash p) (chunk_index p) (proof_hashes p) = R)"
proof -
  have len: "length (verify_loop H (chunk_hash p) (chunk_index p) (proof_hashes p)) = 32"
  proof (cases "proof_hashes p" rule: rev_cases)
    case Nil
    with assms(2) show ?thesis by (simp add: proof_wf_def)
  next
    case (snoc ys y)
    have "\<And>c i. length (verify_loop H c i (ys @ [y])) = 32"
      using assms(1) by (induction ys) (auto simp: digest32_def hash_pair_def)
    with snoc show ?thesis by simp
  qed
  have nex: "\<not> list_ex (\<lambda>h. length h \<noteq> 32) (proof_hashes p)"
    using assms(2) by (auto simp: proof_wf_def list_ex_iff list_all_iff)
  show ?thesis
  proof (cases "length R = 32")
    case True
    with assms(2) nex show ?thesis
      by (simp add: verify_def proof_wf_def verify_loop_fold_up)
  next
    case False
    with len have "verify_loop H (chunk_hash p) (chunk_index p) (proof_hashes p) \<noteq> R" by auto
    with False show ?thesis by (simp add: verify_def verify_loop_fold_up)
  qed
qed

lemma generate_proof_built:
  assumes "digest32 H" "hs \<noteq> []" "list_all (\<lambda>h. length h = 32) hs" "0 \<le> i" "i < int (length hs)"
    and t1: "t1 = \<lparr>chunk_hashes = hs, tree_levels = build_levels H hs,
                    root_hash = Some (hd (last (build_levels H hs)))\<rparr>"
  shows "\<exists>p. generate_proof H t1 i = Inr (p, t1) \<and>
             generate_proof H (MerkleTree_init (Some hs)) i = Inr (p, t1) \<and>
             proof_wf p \<and> chunk_index p = i \<and> chunk_hash p = hs ! nat i \<and>
             verify_loop H (chunk_hash p) (chunk_index p) (proof_hashes p) = hd (last (build_levels H hs))"
proof -
  have n: "nat i < length hs" and ii: "int (nat i) = i" using assms(4,5) by auto
  from proof_loop_correct[OF n, of H] obtain ps where
    ps: "proof_loop (butlast (build_levels H hs)) i = Inr ps"
    and vl: "verify_loop H (hs ! nat i) i ps = hd (last (build_levels H hs))"
    and sub: "set ps \<subseteq> \<Union> (set ` set (build_levels H hs))"
    unfolding ii by blast
  let ?p = "\<lparr>chunk_index = i, chunk_hash = hs ! nat i, proof_hashes = ps\<rparr>"
  have all32: "\<forall>h\<in>set hs. length h = 32" using assms(3) by (simp add: list_all_iff)
  have ps32: "list_all (\<lambda>h. length h = 32) ps"
    unfolding list_all_iff using sub build_levels_digest[OF assms(1) all32] by blast
  have wf: "proof_wf ?p" using assms(4) n all32 ps32 by (simp add: proof_wf_def)
  have pi: "py_index hs i = Some (hs ! nat i)" using py_index_nat[OF n] unfolding ii .
  have ne: "build_levels H hs \<noteq> []" by (rule build_levels_nonempty)
  have g1: "generate_proof H t1 i = Inr (?p, t1)"
    using assms(4,5) ps pi ne by (simp add: generate_proof_def ensure_built_def t1)
  have bt: "build_tree H (MerkleTree_init (Some hs)) = Inr (hd (last (build_levels H hs)), t1)"
    using build_tree_ok[of "MerkleTree_init (Some hs)" H] assms(2)
    by (simp add: MerkleTree_init_def t1)
  have g0: "generate_proof H (MerkleTree_init (Some hs)) i = Inr (?p, t1)"
    using assms(4,5) ps pi bt
    by (simp add: generate_proof_def ensure_built_def) (simp add: MerkleTree_init_def t1)
  from g1 g0 wf vl show ?thesis by auto
qed

text \<open>
  Claim C1. For every non-empty list of 32-byte chunk hashes and every index \<open>i\<close> in
  \<open>[0, n)\<close>, \<^verbatim>\<open>build_tree\<close> returns a root, \<^verbatim>\<open>generate_proof(i)\<close> returns a proof (whether
  the tree was built before or is built by the call), and that proof verifies against the
  root. \<^verbatim>\<open>MerkleProof.verify(R)\<close> is true exactly when folding the leaf hash up the sibling
  list (current on the left at an even index, on the right at an odd one, the index halved at
  each step) yields \<open>R\<close>: for the generated proof, and for every proof of the data model
  (non-negative index, 32-byte leaf hash and siblings).
\<close>

theorem generated_proof_verifies:
  assumes "digest32 H" "hs \<noteq> []" "list_all (\<lambda>h. length h = 32) hs" "0 \<le> i" "i < int (length hs)"
  shows "(\<exists>root t1 p.
            build_tree H (MerkleTree_init (Some hs)) = Inr (root, t1) \<and>
            generate_proof H t1 i = Inr (p, t1) \<and>
            generate_proof H (MerkleTree_init (Some hs)) i = Inr (p, t1) \<and>
            verify H p root \<and>
            (\<forall>R. verify H p R = (fold_up H (chunk_hash p) (chunk_index p) (proof_hashes p) = R))) \<and>
         (\<forall>p R. proof_wf p \<longrightarrow>
            verify H p R = (fold_up H (chunk_hash p) (chunk_index p) (proof_hashes p) = R))"
proof -
  define t1 where "t1 = \<lparr>chunk_hashes = hs, tree_levels = build_levels H hs,
                    root_hash = Some (hd (last (build_levels H hs)))\<rparr>"
  let ?root = "hd (last (build_levels H hs))"
  have bt: "build_tree H (MerkleTree_init (Some hs)) = Inr (?root, t1)"
    using build_tree_ok[of "MerkleTree_init (Some hs)" H] assms(2)
    by (simp add: MerkleTree_init_def t1_def)
  from generate_proof_built[OF assms t1_def] obtain p where
    g1: "generate_proof H t1 i = Inr (p, t1)"
    and g0: "generate_proof H (MerkleTree_init (Some hs)) i = Inr (p, t1)"
    and wf: "proof_wf p"
    and vl: "verify_loop H (chunk_hash p) (chunk_index p) (proof_hashes p) = ?root"
    by blast
  have iff: "\<And>q R. proof_wf q \<Longrightarrow>
      verify H q R = (fold_up H (chunk_hash q) (chunk_index q) (proof_hashes q) = R)"
    using verify_wf_iff[OF assms(1)] by blast
  have "verify H p ?root" using iff[OF wf] vl by (simp add: verify_loop_fold_up)
  with bt g1 g0 iff[OF wf] iff show ?thesis by blast
qed

text \<open>Three sample leaves: the sample digests of the one-byte chunks \<^verbatim>\<open>a\<close>, \<^verbatim>\<open>b\<close>, \<^verbatim>\<open>c\<close>.\<close>

definition sample_leaves :: "bytes list" where
  "sample_leaves = [sample_digest [0x61], sample_digest [0x62], sample_digest [0x63]]"

theorem generated_proof_verifies_witness:
  "digest32 sample_digest \<and> sample_leaves \<noteq> [] \<and>
   list_all (\<lambda>h. length h = 32) sample_leaves \<and> (0::int) \<le> 2 \<and> 2 < int (length sample_leaves) \<and>
   (\<exists>root t1 p.
      build_tree sample_digest (MerkleTree_init (Some sample_leaves)) = Inr (root, t1) \<and>
      generate_proof sample_digest t1 2 = Inr (p, t1) \<and>
      verify sample_digest p root \<and>
      fold_up sample_digest (chunk_hash p) (chunk_index p) (proof_hashes p) = root)"
proof -
  have d: "digest32 sample_digest" by (rule digest32_sample)
  have ne: "sample_leaves \<noteq> []" by (simp add: sample_leaves_def)
  have l32: "list_all (\<lambda>h. length h = 32) sample_leaves"
    using d by (simp add: sample_leaves_def digest32_def)
  have i0: "(0::int) \<le> 2" by simp
  have i1: "2 < int (length sample_leaves)" by (simp add: sample_leaves_def)
  from generated_proof_verifies[OF d ne l32 i0 i1] d ne l32 i1 show ?thesis by auto
qed










section \<open>transfer/chunker.py\<close>

definition DEFAULT_CHUNK_SIZE :: int where "DEFAULT_CHUNK_SIZE = 16 * 1024"
definition MAX_CHUNK_SIZE :: int where "MAX_CHUNK_SIZE = 64 * 1024"
definition MIN_CHUNK_SIZE :: int where "MIN_CHUNK_SIZE = 4 * 1024"

text \<open>Of a \<^verbatim>\<open>DataChunker\<close> the functions below read and write the chunk size only; its
  flow-control fields are left out.\<close>

record DataChunker =
  chunk_size :: int

definition DataChunker_init :: "int \<Rightarrow> error + DataChunker" where
  "DataChunker_init cs =
     (if \<not> (MIN_CHUNK_SIZE \<le> cs \<and> cs \<le> MAX_CHUNK_SIZE) then Inl ValueError
      else Inr \<lparr>chunk_size = cs\<rparr>)"

text \<open>\<^verbatim>\<open>negotiate_chunk_size\<close>: the agreed size, and the chunker that now holds it.\<close>

definition negotiate_chunk_size :: "DataChunker \<Rightarrow> int \<Rightarrow> int \<Rightarrow> int \<times> DataChunker" where
  "negotiate_chunk_size c proposed_size peer_max_size =
     (let proposed_size = (if \<not> (MIN_CHUNK_SIZE \<le> proposed_size \<and> proposed_size \<le> MAX_CHUNK_SIZE)
                           then DEFAULT_CHUNK_SIZE else proposed_size);
          peer_max_size = (if \<not> (MIN_CHUNK_SIZE \<le> peer_max_size \<and> peer_max_size \<le> MAX_CHUNK_SIZE)
                           then DEFAULT_CHUNK_SIZE else peer_max_size);
          agreed_size = min proposed_size peer_max_size;
          agreed_size = (if agreed_size < MIN_CHUNK_SIZE then MIN_CHUNK_SIZE
                         else if agreed_size > MAX_CHUNK_SIZE then MAX_CHUNK_SIZE
                         else agreed_size)
      in (agreed_size, c\<lparr>chunk_size := agreed_size\<rparr>))"

text \<open>The clamp of the specification's negotiation rule, \<open>clamp(x, lo, hi)\<close>, and the
  replacement of an invalid proposal by the default.\<close>

definition clamp :: "int \<Rightarrow> int \<Rightarrow> int \<Rightarrow> int" where
  "clamp x lo hi = max lo (min hi x)"

definition or_default :: "int \<Rightarrow> int" where
  "or_default x = (if 4 * 1024 \<le> x \<and> x \<le> 64 * 1024 then x else 16 * 1024)"

definition calculate_chunk_count :: "int \<Rightarrow> int \<Rightarrow> int" where
  "calculate_chunk_count data_size cs = (data_size + cs - 1) div cs"

text \<open>The loop of \<^verbatim>\<open>chunk_file\<close> on the contents of the file, for a chunk size of at least
  \<open>-1\<close>: \<^verbatim>\<open>f.read(n)\<close> returns at most \<open>n\<close> bytes, everything that is left when \<open>n\<close> is \<open>-1\<close>
  and nothing when \<open>n\<close> is zero; the loop stops at the first empty read. The chunk indices
  are the positions in the list.\<close>

function chunk_bytes :: "int \<Rightarrow> bytes \<Rightarrow> bytes list" where
  "chunk_bytes cs data =
     (if data = [] \<or> cs = 0 then []
      else if cs < 0 then [data]
      else take (nat cs) data # chunk_bytes cs (drop (nat cs) data))"
  by pat_completeness auto
termination
  by (relation "measure (\<lambda>(cs, data). length data)") auto

declare chunk_bytes.simps [simp del]

text \<open>\<^verbatim>\<open>chunk_file\<close>: a buffered binary file refuses a read length below \<open>-1\<close> with
  \<^verbatim>\<open>ValueError\<close>, at the first read.\<close>

definition chunk_file :: "int \<Rightarrow> bytes \<Rightarrow> error + bytes list" where
  "chunk_file cs data = (if cs < - 1 then Inl ValueError else Inr (chunk_bytes cs data))"

subsection \<open>Chunk size negotiation\<close>

text \<open>
  Claim C7, as stated: \<open>negotiate_chunk_size(proposed, peer_max)\<close> returns
  \<open>clamp(min(p, m), 4096 * 4, 1024 * 64)\<close>. The lower bound \<open>4096 * 4\<close> is 16 KiB, not the
  4 KiB of \<^verbatim>\<open>MIN_CHUNK_SIZE\<close>: two proposals of 4096 are agreed at 4096, below that bound.
\<close>

theorem negotiate_literal_bound_counterexample:
  "fst (negotiate_chunk_size \<lparr>chunk_size = 16384\<rparr> 4096 4096) = 4096 \<and>
   clamp (min (or_default 4096) (or_default 4096)) (4096 * 4) (1024 * 64) = 16384 \<and>
   fst (negotiate_chunk_size \<lparr>chunk_size = 16384\<rparr> 4096 4096)
     \<noteq> clamp (min (or_default 4096) (or_default 4096)) (4096 * 4) (1024 * 64)"
  by (simp add: negotiate_chunk_size_def clamp_def or_default_def
        MIN_CHUNK_SIZE_def MAX_CHUNK_SIZE_def DEFAULT_CHUNK_SIZE_def)

text \<open>
  Claim C7, amended: for all integer inputs \<open>negotiate_chunk_size(proposed, peer_max)\<close>
  returns \<open>clamp(min(p, m), 4 * 1024, 64 * 1024)\<close>, where \<open>p\<close> (resp. \<open>m\<close>) is the given
  value if it lies in [4 KiB, 64 KiB] and the default 16 KiB otherwise; the agreed size lies
  in [4 KiB, 64 KiB] and is the chunk size the chunker holds afterwards.
\<close>

theorem negotiate_chunk_size_clamp:
  "fst (negotiate_chunk_size c proposed peer_max)
     = clamp (min (or_default proposed) (or_default peer_max)) (4 * 1024) (64 * 1024) \<and>
   4 * 1024 \<le> fst (negotiate_chunk_size c proposed peer_max) \<and>
   fst (negotiate_chunk_size c proposed peer_max) \<le> 64 * 1024 \<and>
   chunk_size (snd (negotiate_chunk_size c proposed peer_max))
     = fst (negotiate_chunk_size c proposed peer_max)"
proof -
  let ?p = "or_default proposed" and ?m = "or_default peer_max"
  have p: "4096 \<le> ?p \<and> ?p \<le> 65536" and m: "4096 \<le> ?m \<and> ?m \<le> 65536"
    by (simp_all add: or_default_def)
  have r: "fst (negotiate_chunk_size c proposed peer_max) = min ?p ?m"
    by (auto simp: negotiate_chunk_size_def or_default_def Let_def min_def
          MIN_CHUNK_SIZE_def MAX_CHUNK_SIZE_def DEFAULT_CHUNK_SIZE_def)
  have c: "clamp (min ?p ?m) (4 * 1024) (64 * 1024) = min ?p ?m"
    using p m unfolding clamp_def by linarith
  have s: "chunk_size (snd (negotiate_chunk_size c proposed peer_max))
             = fst (negotiate_chunk_size c proposed peer_max)"
    by (simp add: negotiate_chunk_size_def Let_def)
  have rng: "4096 \<le> min ?p ?m \<and> min ?p ?m \<le> 65536"
    using p m by (simp add: min_def)
  from r c s rng show ?thesis by simp
qed

section \<open>transfer/stream.py\<close>

record TransferState =
  transfer_id :: string
  total_chunks :: int
  completed_chunks :: "int set"
  merkle_root :: "bytes option"
  state_chunk_size :: int

definition TransferState_init :: "string \<Rightarrow> int \<Rightarrow> TransferState" where
  "TransferState_init tid n_total =
     \<lparr>transfer_id = tid, total_chunks = n_total, completed_chunks = {}, merkle_root = None,
      state_chunk_size = DEFAULT_CHUNK_SIZE\<rparr>"

text \<open>The properties \<^verbatim>\<open>progress\<close> and \<^verbatim>\<open>is_complete\<close>. The percentage is a float; it is
  kept as the expression that computes it: \<open>Hundred\<close> for \<^verbatim>\<open>100.0\<close> and \<open>Percent n t\<close> for
  \<^verbatim>\<open>(n / t) * 100.0\<close>.\<close>

datatype percentage = Hundred | Percent nat int

definition progress :: "TransferState \<Rightarrow> percentage" where
  "progress st =
     (if total_chunks st = 0 then Hundred
      else Percent (card (completed_chunks st)) (total_chunks st))"

definition is_complete :: "TransferState \<Rightarrow> bool" where
  "is_complete st = (int (card (completed_chunks st)) = total_chunks st)"

text \<open>A \<^verbatim>\<open>TransferStream\<close>. \<open>progress_callback\<close> tells whether a callback is set and
  \<open>progress_log\<close> lists the values it has been called with, the latest first. The files
  the stream reads and writes are a map from paths to contents.\<close>

record TransferStream =
  stream_transfer_id :: string
  chunker :: DataChunker
  state :: "TransferState option"
  merkle_tree :: "MerkleTree option"
  progress_callback :: bool
  progress_log :: "percentage list"
  file_path :: "string option"

type_synonym files = "string \<Rightarrow> bytes option"

definition TransferStream_init :: "string \<Rightarrow> DataChunker option \<Rightarrow> TransferStream" where
  "TransferStream_init tid c =
     \<lparr>stream_transfer_id = tid,
      chunker = (case c of None \<Rightarrow> \<lparr>chunk_size = DEFAULT_CHUNK_SIZE\<rparr> | Some c' \<Rightarrow> c'),
      state = None, merkle_tree = None, progress_callback = False, progress_log = [],
      file_path = None\<rparr>"

definition set_progress_callback :: "TransferStream \<Rightarrow> TransferStream" where
  "set_progress_callback s = s\<lparr>progress_callback := True\<rparr>"

definition update_progress :: "TransferStream \<Rightarrow> TransferStream" where
  "update_progress s =
     (case state s of
        None \<Rightarrow> s
      | Some st \<Rightarrow> if progress_callback s then s\<lparr>progress_log := progress st # progress_log s\<rparr>
                   else s)"

text \<open>\<^verbatim>\<open>start_send\<close>. The chunk count divides by the chunk size. The state is assigned
  before \<^verbatim>\<open>chunk_file\<close> can raise, and the tree before \<^verbatim>\<open>build_tree\<close> can (on an empty
  file), so the stream is returned with the error.\<close>

definition start_send ::
  "(bytes \<Rightarrow> bytes) \<Rightarrow> TransferStream \<Rightarrow> files \<Rightarrow> string \<Rightarrow> error option \<times> TransferStream" where
  "start_send H s fs path =
     (case fs path of
        None \<Rightarrow> (Some TransferError, s)
      | Some content \<Rightarrow>
          if chunk_size (chunker s) = 0 then (Some ZeroDivisionError, s) else
          (let cs = chunk_size (chunker s);
               n_total = calculate_chunk_count (int (length content)) cs;
               st = (TransferState_init (stream_transfer_id s) n_total)\<lparr>state_chunk_size := cs\<rparr>
           in case chunk_file cs content of
                Inl e \<Rightarrow> (Some e, s\<lparr>state := Some st\<rparr>)
              | Inr chunks \<Rightarrow>
                  (let tree = MerkleTree_init (Some (map (hash_chunk H) chunks))
                   in case build_tree H tree of
                        Inl e \<Rightarrow> (Some e, s\<lparr>state := Some st, merkle_tree := Some tree\<rparr>)
                      | Inr (r, tree') \<Rightarrow>
                          (None, update_progress
                             (s\<lparr>state := Some (st\<lparr>merkle_root := Some r\<rparr>),
                                merkle_tree := Some tree'\<rparr>)))))"

text \<open>\<^verbatim>\<open>start_receive\<close>: a missing file is created and filled with zeros.\<close>

definition start_receive ::
  "TransferStream \<Rightarrow> files \<Rightarrow> string \<Rightarrow> bytes \<Rightarrow> int \<Rightarrow> error option \<times> TransferStream \<times> files" where
  "start_receive s fs path expected_root n_total =
     (if length expected_root \<noteq> 32 then (Some TransferError, s, fs)
      else if n_total \<le> 0 then (Some TransferError, s, fs)
      else (let cs = chunk_size (chunker s);
                st = (TransferState_init (stream_transfer_id s) n_total)
                       \<lparr>merkle_root := Some expected_root, state_chunk_size := cs\<rparr>;
                fs' = (case fs path of
                         None \<Rightarrow> fs(path \<mapsto> replicate (nat (n_total * cs)) 0)
                       | Some content \<Rightarrow> fs)
            in (None, update_progress (s\<lparr>state := Some st, file_path := Some path\<rparr>), fs')))"

text \<open>\<^verbatim>\<open>send_chunk\<close>; \<^verbatim>\<open>verify_chunk\<close> may fill the tree's cache.\<close>

definition send_chunk ::
  "(bytes \<Rightarrow> bytes) \<Rightarrow> TransferStream \<Rightarrow> int \<Rightarrow> bytes \<Rightarrow> MerkleProof \<Rightarrow> error option \<times> TransferStream" where
  "send_chunk H s i chunk_data p =
     (case state s of
        None \<Rightarrow> (Some TransferError, s)
      | Some st \<Rightarrow>
          if i < 0 \<or> i \<ge> total_chunks st then (Some TransferError, s)
          else (case merkle_tree s of
                  None \<Rightarrow> (Some TransferError, s)
                | Some tree \<Rightarrow>
                    (case verify_chunk H tree chunk_data i p of
                       (False, tree') \<Rightarrow> (Some TransferError, s\<lparr>merkle_tree := Some tree'\<rparr>)
                     | (True, tree') \<Rightarrow>
                         (None, update_progress
                            (s\<lparr>merkle_tree := Some tree',
                               state := Some (st\<lparr>completed_chunks :=
                                                   insert i (completed_chunks st)\<rparr>)\<rparr>)))))"

text \<open>Writing \<open>data\<close> at \<open>offset\<close> into a file opened with mode \<^verbatim>\<open>r+b\<close>: the bytes are
  overwritten in place, and a gap between the end of the file and the offset reads as zeros.\<close>

definition write_at :: "bytes \<Rightarrow> nat \<Rightarrow> bytes \<Rightarrow> bytes" where
  "write_at content offset data =
     take offset content @ replicate (offset - length content) 0 @ data
       @ drop (offset + length data) content"

text \<open>A file offset is a signed 64-bit integer.\<close>

definition fits_off_t :: "int \<Rightarrow> bool" where
  "fits_off_t n = (- (2 ^ 63) \<le> n \<and> n < 2 ^ 63)"

text \<open>\<^verbatim>\<open>receive_chunk\<close>. \<^verbatim>\<open>open(path, "r+b")\<close> raises \<^verbatim>\<open>OSError\<close> when the file is missing.
  \<^verbatim>\<open>f.seek\<close> raises \<^verbatim>\<open>ValueError\<close> for an offset that is no file offset, which leaves the
  function, and \<^verbatim>\<open>OSError\<close> for a negative one. Whether the operating system then carries
  out the seek and the write (size limits, free space, permissions) is the parameter
  \<open>os_ok path offset data\<close>; it raises \<^verbatim>\<open>OSError\<close> if not. On \<^verbatim>\<open>OSError\<close> the function
  returns \<^verbatim>\<open>False\<close>. In each of these cases nothing is admitted.\<close>

definition receive_chunk ::
  "(bytes \<Rightarrow> bytes) \<Rightarrow> (string \<Rightarrow> int \<Rightarrow> bytes \<Rightarrow> bool) \<Rightarrow> TransferStream \<Rightarrow> files
     \<Rightarrow> int \<Rightarrow> bytes \<Rightarrow> MerkleProof \<Rightarrow> error + bool \<times> TransferStream \<times> files" where
  "receive_chunk H os_ok s fs i chunk_data p =
     (case state s of
        None \<Rightarrow> Inr (False, s, fs)
      | Some st \<Rightarrow>
          if i < 0 \<or> i \<ge> total_chunks st then Inr (False, s, fs)
          else if i \<in> completed_chunks st then Inr (True, s, fs)
          else (case merkle_root st of
                  None \<Rightarrow> Inr (False, s, fs)
                | Some rt \<Rightarrow>
                    if rt = [] then Inr (False, s, fs)
                    else if \<not> verify H p rt then Inr (False, s, fs)
                    else if hash_chunk H chunk_data \<noteq> chunk_hash p then Inr (False, s, fs)
                    else (let admitted = update_progress
                                (s\<lparr>state := Some (st\<lparr>completed_chunks :=
                                                       insert i (completed_chunks st)\<rparr>)\<rparr>);
                              offset = i * state_chunk_size st
                          in case file_path s of
                               None \<Rightarrow> Inr (True, admitted, fs)
                             | Some path \<Rightarrow>
                                 (case fs path of
                                    None \<Rightarrow> Inr (False, s, fs)
                                  | Some content \<Rightarrow>
                                      if \<not> fits_off_t offset then Inl ValueError
                                      else if offset < 0 then Inr (False, s, fs)
                                      else if \<not> os_ok path offset chunk_data then Inr (False, s, fs)
                                      else Inr (True, admitted,
                                                fs(path \<mapsto> write_at content (nat offset)
                                                                 chunk_data))))))"

text \<open>\<^verbatim>\<open>bytes.fromhex\<close>: two hexadecimal digits per byte, ASCII whitespace skipped between
  bytes; anything else raises \<^verbatim>\<open>ValueError\<close> (here \<open>None\<close>). \<^verbatim>\<open>bytes.hex\<close> writes lower-case
  digits.\<close>

definition hex_value :: "char \<Rightarrow> nat option" where
  "hex_value c =
     (let n = (of_char c :: nat)
      in if 48 \<le> n \<and> n \<le> 57 then Some (n - 48)
         else if 97 \<le> n \<and> n \<le> 102 then Some (n - 87)
         else if 65 \<le> n \<and> n \<le> 70 then Some (n - 55)
         else None)"

definition is_space :: "char \<Rightarrow> bool" where
  "is_space c = ((of_char c :: nat) \<in> {9, 10, 11, 12, 13, 32})"

fun fromhex :: "string \<Rightarrow> bytes option" where
  "fromhex [] = Some []"
| "fromhex [c] = (if is_space c then Some [] else None)"
| "fromhex (c # d # cs) =
     (if is_space c then fromhex (d # cs)
      else case (hex_value c, hex_value d) of
             (Some a, Some b) \<Rightarrow> map_option ((#) (of_nat (16 * a + b))) (fromhex cs)
           | _ \<Rightarrow> None)"

definition hex_char :: "nat \<Rightarrow> char" where
  "hex_char n = (if n < 10 then char_of (48 + n) else char_of (87 + n))"

definition to_hex :: "bytes \<Rightarrow> string" where
  "to_hex bs = concat (map (\<lambda>b. [hex_char (unat b div 16), hex_char (unat b mod 16)]) bs)"

text \<open>The JSON object of a state file, as \<^verbatim>\<open>save_state\<close> writes it: each field is absent or
  holds a value of the type \<^verbatim>\<open>save_state\<close> gives it. A state file is missing, is not valid
  JSON, or holds such an object.\<close>

record state_data =
  sd_transfer_id :: "string option"
  sd_total_chunks :: "int option"
  sd_completed_chunks :: "int list option"
  sd_chunk_size :: "int option"
  sd_merkle_root :: "string option"
  sd_progress :: "percentage option"

datatype state_file = Missing | Malformed | Parsed state_data

text \<open>\<^verbatim>\<open>resume_transfer\<close>. The new state is assigned before the Merkle root is decoded, so a
  root that is not hexadecimal leaves the new state in place and raises.\<close>

definition resume_transfer ::
  "TransferStream \<Rightarrow> state_file \<Rightarrow> error option \<times> TransferStream" where
  "resume_transfer s f =
     (case f of
        Missing \<Rightarrow> (Some TransferError, s)
      | Malformed \<Rightarrow> (Some TransferError, s)
      | Parsed d \<Rightarrow>
          if sd_transfer_id d \<noteq> Some (stream_transfer_id s) then (Some TransferError, s)
          else (let n_total = (case sd_total_chunks d of None \<Rightarrow> 0 | Some n \<Rightarrow> n)
                in if n_total \<le> 0 then (Some TransferError, s)
                   else (let st = (TransferState_init (stream_transfer_id s) n_total)
                                    \<lparr>completed_chunks :=
                                       set (case sd_completed_chunks d of None \<Rightarrow> [] | Some l \<Rightarrow> l)\<rparr>;
                             rt = (case sd_merkle_root d of
                                       None \<Rightarrow> Some None
                                     | Some hex \<Rightarrow> if hex = [] then Some None
                                                   else map_option Some (fromhex hex))
                         in case rt of
                              None \<Rightarrow> (Some TransferError, s\<lparr>state := Some st\<rparr>)
                            | Some r \<Rightarrow>
                                (let cs = (case sd_chunk_size d of
                                             None \<Rightarrow> DEFAULT_CHUNK_SIZE | Some c \<Rightarrow> c)
                                 in (None, update_progress
                                       (s\<lparr>state := Some (st\<lparr>merkle_root := r,
                                                            state_chunk_size := cs\<rparr>),
                                          chunker := (chunker s)\<lparr>chunk_size := cs\<rparr>\<rparr>))))))"

text \<open>\<^verbatim>\<open>save_state\<close>: the object written to the state file. \<open>list_of\<close> is Python's
  \<^verbatim>\<open>list(...)\<close> of a set, its elements in the set's iteration order.\<close>

definition save_state :: "(int set \<Rightarrow> int list) \<Rightarrow> TransferStream \<Rightarrow> error + state_data" where
  "save_state list_of s =
     (case state s of
        None \<Rightarrow> Inl TransferError
      | Some st \<Rightarrow>
          Inr \<lparr>sd_transfer_id = Some (stream_transfer_id s),
               sd_total_chunks = Some (total_chunks st),
               sd_completed_chunks =
                 Some (list_of (completed_chunks st)),
               sd_chunk_size = Some (state_chunk_size st),
               sd_merkle_root = (case merkle_root st of
                                   None \<Rightarrow> None
                                 | Some r \<Rightarrow> if r = [] then None else Some (to_hex r)),
               sd_progress = Some (progress st)\<rparr>)"

definition get_missing_chunks :: "TransferStream \<Rightarrow> int list" where
  "get_missing_chunks s =
     (case state s of
        None \<Rightarrow> []
      | Some st \<Rightarrow> filter (\<lambda>i. i \<notin> completed_chunks st) [0..total_chunks st - 1])"

text \<open>\<^verbatim>\<open>verify_complete_file\<close>: the three guards, then the file is chunked and hashed again;
  an exception of \<^verbatim>\<open>chunk_file\<close> or \<^verbatim>\<open>build_tree\<close> gives \<^verbatim>\<open>False\<close>.\<close>

definition verify_complete_file ::
  "(bytes \<Rightarrow> bytes) \<Rightarrow> TransferStream \<Rightarrow> files \<Rightarrow> string \<Rightarrow> bool" where
  "verify_complete_file H s fs path =
     (case state s of
        None \<Rightarrow> False
      | Some st \<Rightarrow>
          (case merkle_root st of
             None \<Rightarrow> False
           | Some rt \<Rightarrow>
               if rt = [] then False
               else (case fs path of
                       None \<Rightarrow> False
                     | Some content \<Rightarrow>
                         if \<not> is_complete st then False
                         else (case chunk_file (chunk_size (chunker s)) content of
                                 Inl e \<Rightarrow> False
                               | Inr chunks \<Rightarrow>
                                   (let hashes = map (hash_chunk H) chunks
                                    in if int (length hashes) \<noteq> total_chunks st then False
                                       else (case build_tree H (MerkleTree_init (Some hashes)) of
                                               Inl e \<Rightarrow> False
                                             | Inr (computed_root, t) \<Rightarrow> computed_root = rt))))))"

text \<open>The invariant of the data model: the completed chunks are indices of the transfer.\<close>

definition state_inv :: "TransferState \<Rightarrow> bool" where
  "state_inv st = (completed_chunks st \<subseteq> {0..<total_chunks st})"

definition stream_inv :: "TransferStream \<Rightarrow> bool" where
  "stream_inv s = (case state s of None \<Rightarrow> True | Some st \<Rightarrow> state_inv st)"

subsection \<open>The completed set\<close>

lemma state_update_progress [simp]: "state (update_progress s) = state s"
  by (simp add: update_progress_def split: option.splits)

lemma start_send_inv: "stream_inv (snd (start_send H s fs path))" if "stream_inv s"
  using that
  by (auto simp: start_send_def stream_inv_def state_inv_def TransferState_init_def Let_def
      split: option.splits sum.splits)

lemma start_receive_inv:
  "stream_inv (fst (snd (start_receive s fs path expected_root n)))" if "stream_inv s"
  using that
  by (auto simp: start_receive_def stream_inv_def state_inv_def TransferState_init_def Let_def
      split: option.splits)

lemma send_chunk_inv: "stream_inv (snd (send_chunk H s i d p))" if "stream_inv s"
  using that
  by (auto simp: send_chunk_def stream_inv_def state_inv_def
      split: option.splits prod.splits bool.splits)

text \<open>What a call of \<^verbatim>\<open>receive_chunk\<close> that returns can do: refuse and change nothing; accept
  a duplicate and change nothing; or admit a new index of the transfer, after the proof has
  verified against the stored root and the chunk has hashed to the proof's leaf hash.\<close>

lemma receive_chunk_outcome:
  assumes "receive_chunk H os_ok s fs i d p = Inr (ok, s', fs')"
  shows "(\<not> ok \<and> s' = s \<and> fs' = fs) \<or>
         (ok \<and> (\<exists>st. state s = Some st \<and> 0 \<le> i \<and> i < total_chunks st \<and>
            ((i \<in> completed_chunks st \<and> s' = s \<and> fs' = fs) \<or>
             (i \<notin> completed_chunks st \<and>
              (\<exists>rt. merkle_root st = Some rt \<and> verify H p rt) \<and>
              hash_chunk H d = chunk_hash p \<and>
              state s' = Some (st\<lparr>completed_chunks := insert i (completed_chunks st)\<rparr>)))))"
proof (cases "state s")
  case None
  with assms show ?thesis by (simp add: receive_chunk_def)
next
  case (Some st)
  show ?thesis
  proof (cases "i < 0 \<or> i \<ge> total_chunks st")
    case True
    with assms Some show ?thesis by (auto simp: receive_chunk_def)
  next
    case range: False
    show ?thesis
    proof (cases "i \<in> completed_chunks st")
      case True
      with assms Some range show ?thesis by (auto simp: receive_chunk_def)
    next
      case new: False
      from assms Some range new show ?thesis
        by (auto simp: receive_chunk_def Let_def split: option.splits if_splits)
    qed
  qed
qed

lemma receive_chunk_inv:
  assumes "stream_inv s" "receive_chunk H os_ok s fs i d p = Inr (ok, s', fs')"
  shows "stream_inv s'"
  using receive_chunk_outcome[OF assms(2)] assms(1)
  by (auto simp: stream_inv_def state_inv_def)

lemma hex_value_hex_char: "n < 16 \<Longrightarrow> hex_value (hex_char n) = Some n"
  by (auto simp: hex_value_def hex_char_def Let_def)

lemma not_space_hex_char: "n < 16 \<Longrightarrow> \<not> is_space (hex_char n)"
  by (auto simp: is_space_def hex_char_def)

lemma fromhex_to_hex: "fromhex (to_hex bs) = Some bs"
proof (induction bs)
  case Nil
  show ?case by (simp add: to_hex_def)
next
  case (Cons b bs)
  have "unat b < 2 ^ LENGTH(8)" by (rule unsigned_less)
  then have hi: "unat b div 16 < 16" by simp
  have lo: "unat b mod 16 < 16" by simp
  have "(of_nat (16 * (unat b div 16) + unat b mod 16) :: byte) = b"
    by simp
  with Cons hi lo show ?case
    by (simp add: to_hex_def hex_value_hex_char not_space_hex_char del: of_nat_add of_nat_mult)
qed

lemma to_hex_empty_iff: "to_hex bs = [] \<longleftrightarrow> bs = []"
  by (cases bs) (simp_all add: to_hex_def)

text \<open>A state file that \<^verbatim>\<open>save_state\<close> wrote from a state of the data model is resumed
  to a state of the data model.\<close>

lemma resume_saved_state_inv:
  assumes "state s0 = Some st" "state_inv st" "save_state list_of s0 = Inr d" "stream_inv s"
    and "set (list_of (completed_chunks st)) = completed_chunks st"
  shows "stream_inv (snd (resume_transfer s (Parsed d)))"
proof -
  have d: "d = \<lparr>sd_transfer_id = Some (stream_transfer_id s0),
               sd_total_chunks = Some (total_chunks st),
               sd_completed_chunks = Some (list_of (completed_chunks st)),
               sd_chunk_size = Some (state_chunk_size st),
               sd_merkle_root = (case merkle_root st of
                                   None \<Rightarrow> None
                                 | Some r \<Rightarrow> if r = [] then None else Some (to_hex r)),
               sd_progress = Some (progress st)\<rparr>"
    using assms(1,3) by (simp add: save_state_def)
  show ?thesis
    using assms(2,4,5)
    by (auto simp: d resume_transfer_def stream_inv_def state_inv_def TransferState_init_def
          Let_def fromhex_to_hex to_hex_empty_iff split: option.splits)
qed

text \<open>A state file for a transfer of two chunks that lists chunk 5 as completed.\<close>

definition stale_state_file :: state_data where
  "stale_state_file =
     \<lparr>sd_transfer_id = Some ''t1'', sd_total_chunks = Some 2, sd_completed_chunks = Some [5],
      sd_chunk_size = Some 16384, sd_merkle_root = None, sd_progress = Some (Percent 1 2)\<rparr>"

text \<open>
  Claim C3 says that every operation of \<^verbatim>\<open>TransferStream\<close> preserves
  \<open>completed_chunks \<subseteq> {0, \<dots>, total_chunks - 1}\<close>. \<^verbatim>\<open>start_send\<close>, \<^verbatim>\<open>start_receive\<close>,
  \<^verbatim>\<open>send_chunk\<close> and \<^verbatim>\<open>receive_chunk\<close> do (lemmas above), and \<^verbatim>\<open>receive_chunk\<close> admits an index
  only after both checks. \<^verbatim>\<open>resume_transfer\<close> does not: it checks the transfer id and that
  \<open>total_chunks\<close> is positive, and installs the file's list of completed chunks unchecked.
  A file that \<^verbatim>\<open>save_state\<close> wrote from a state of the data model is harmless (lemma
  \<open>resume_saved_state_inv\<close>); a state file for two chunks that lists chunk 5 is accepted and
  leaves the stream with \<open>completed_chunks = {5}\<close>, which \<^verbatim>\<open>is_complete\<close> and
  \<^verbatim>\<open>get_missing_chunks\<close> then read.
\<close>

theorem resume_transfer_breaks_invariant:
  "stream_inv (TransferStream_init ''t1'' None) \<and>
   fst (resume_transfer (TransferStream_init ''t1'' None) (Parsed stale_state_file)) = None \<and>
   map_option completed_chunks
     (state (snd (resume_transfer (TransferStream_init ''t1'' None) (Parsed stale_state_file))))
     = Some {5} \<and>
   map_option total_chunks
     (state (snd (resume_transfer (TransferStream_init ''t1'' None) (Parsed stale_state_file))))
     = Some 2 \<and>
   \<not> stream_inv (snd (resume_transfer (TransferStream_init ''t1'' None) (Parsed stale_state_file))) \<and>
   get_missing_chunks (snd (resume_transfer (TransferStream_init ''t1'' None) (Parsed stale_state_file)))
     = [0, 1]"
  by (simp add: resume_transfer_def TransferStream_init_def stale_state_file_def
        TransferState_init_def stream_inv_def state_inv_def Let_def DEFAULT_CHUNK_SIZE_def
        get_missing_chunks_def upto.simps)

subsection \<open>Duplicates\<close>

text \<open>A stream in the middle of a receive of two chunks, the first of them completed; a file
  of one byte; and an operating system that carries out every write.\<close>

definition sample_stream :: TransferStream where
  "sample_stream =
     \<lparr>stream_transfer_id = ''t1'', chunker = \<lparr>chunk_size = 16384\<rparr>,
      state = Some \<lparr>transfer_id = ''t1'', total_chunks = 2, completed_chunks = {0},
                    merkle_root = Some (sample_digest []), state_chunk_size = 16384\<rparr>,
      merkle_tree = None, progress_callback = True, progress_log = [Percent 1 2],
      file_path = Some ''out.bin''\<rparr>"

definition whole_file :: files where
  "whole_file = (\<lambda>p. if p = ''out.bin'' then Some [0x61] else None)"

definition always_ok :: "string \<Rightarrow> int \<Rightarrow> bytes \<Rightarrow> bool" where
  "always_ok path offset data = True"

text \<open>
  Claim C8, as stated: for any transfer state and any chunk index in the completed set,
  \<^verbatim>\<open>receive_chunk\<close> returns success. The range check comes before the test for a duplicate:
  in the stream that \<^verbatim>\<open>resume_transfer\<close> leaves after the state file above (two chunks,
  chunk 5 completed) the index 5 is in the completed set, and \<^verbatim>\<open>receive_chunk\<close> returns
  \<^verbatim>\<open>False\<close> for it.
\<close>

theorem duplicate_out_of_range_counterexample:
  "map_option completed_chunks
     (state (snd (resume_transfer (TransferStream_init ''t1'' None) (Parsed stale_state_file))))
     = Some {5} \<and>
   receive_chunk sample_digest always_ok
     (snd (resume_transfer (TransferStream_init ''t1'' None) (Parsed stale_state_file)))
     whole_file 5 [0x61] \<lparr>chunk_index = 5, chunk_hash = sample_digest [0x61], proof_hashes = []\<rparr>
     = Inr (False, snd (resume_transfer (TransferStream_init ''t1'' None) (Parsed stale_state_file)),
            whole_file)"
  by (simp add: resume_transfer_def TransferStream_init_def stale_state_file_def
        TransferState_init_def Let_def DEFAULT_CHUNK_SIZE_def receive_chunk_def
        update_progress_def)

text \<open>
  Claim C8, amended: \<^verbatim>\<open>receive_chunk\<close> is idempotent on duplicates: for any transfer state
  and any chunk index of the transfer (\<open>0 \<le> i < total_chunks\<close>) that is in the completed
  set, the call returns success and leaves the stream (completed set, total, root, chunk
  size, progress log) and the files unchanged, whatever data and proof come with it. In
  particular a second call with an index that a first call has accepted returns success and
  changes nothing.
\<close>

theorem receive_chunk_duplicate_idempotent:
  "(\<forall>st. state s = Some st \<longrightarrow> 0 \<le> i \<longrightarrow> i < total_chunks st \<longrightarrow> i \<in> completed_chunks st \<longrightarrow>
      receive_chunk H os_ok s fs i d p = Inr (True, s, fs)) \<and>
   (\<forall>s' fs' d' p'. receive_chunk H os_ok s fs i d p = Inr (True, s', fs') \<longrightarrow>
      receive_chunk H os_ok s' fs' i d' p' = Inr (True, s', fs'))"
proof (intro conjI allI impI)
  fix st
  assume "state s = Some st" "0 \<le> i" "i < total_chunks st" "i \<in> completed_chunks st"
  then show "receive_chunk H os_ok s fs i d p = Inr (True, s, fs)"
    by (simp add: receive_chunk_def)
next
  fix s' fs' d' p'
  assume r: "receive_chunk H os_ok s fs i d p = Inr (True, s', fs')"
  from receive_chunk_outcome[OF r] obtain st' where
    "state s' = Some st'" "0 \<le> i" "i < total_chunks st'" "i \<in> completed_chunks st'"
    by auto
  then show "receive_chunk H os_ok s' fs' i d' p' = Inr (True, s', fs')"
    by (simp add: receive_chunk_def)
qed

theorem receive_chunk_duplicate_idempotent_witness:
  "state sample_stream \<noteq> None \<and> (0::int) < total_chunks (the (state sample_stream)) \<and>
   0 \<in> completed_chunks (the (state sample_stream)) \<and>
   receive_chunk sample_digest always_ok sample_stream whole_file 0 [0x61]
     \<lparr>chunk_index = 0, chunk_hash = [], proof_hashes = []\<rparr>
     = Inr (True, sample_stream, whole_file)"
proof -
  have st: "state sample_stream = Some (the (state sample_stream))"
    by (simp add: sample_stream_def)
  have rng: "(0::int) \<le> 0" "(0::int) < total_chunks (the (state sample_stream))"
    by (simp_all add: sample_stream_def)
  have mem: "0 \<in> completed_chunks (the (state sample_stream))"
    by (simp add: sample_stream_def)
  from receive_chunk_duplicate_idempotent[of sample_stream 0 sample_digest always_ok whole_file
      "[0x61]" "\<lparr>chunk_index = 0, chunk_hash = [], proof_hashes = []\<rparr>"] st rng mem
  show ?thesis by (simp add: sample_stream_def)
qed

subsection \<open>Verification of the complete file\<close>

lemma complete_state_full:
  assumes "state_inv st" "is_complete st"
  shows "completed_chunks st = {0..<total_chunks st}"
proof -
  have fin: "finite {0..<total_chunks st}" by simp
  have sub: "completed_chunks st \<subseteq> {0..<total_chunks st}"
    using assms(1) by (simp add: state_inv_def)
  have c: "int (card (completed_chunks st)) = total_chunks st"
    using assms(2) by (simp add: is_complete_def)
  then have "0 \<le> total_chunks st" by linarith
  then have "card {0..<total_chunks st} = nat (total_chunks st)" by simp
  with c have "card (completed_chunks st) = card {0..<total_chunks st}" by linarith
  with fin sub show ?thesis by (rule card_subset_eq)
qed

lemma sample_digest_nonempty: "sample_digest x \<noteq> []"
  using digest32_sample by (auto simp: digest32_def dest: spec[of _ x])

lemma chunk_file_one: "chunk_file 16384 [b] = Inr [[b]]"
  by (simp add: chunk_file_def chunk_bytes.simps)

text \<open>A one-chunk stream with a given completed set, whose file is whole, and a state file
  for one chunk that lists chunk 7 as completed and carries the root of that file.\<close>

definition whole_file_stream :: "int set \<Rightarrow> TransferStream" where
  "whole_file_stream finished =
     \<lparr>stream_transfer_id = ''t2'', chunker = \<lparr>chunk_size = 16384\<rparr>,
      state = Some \<lparr>transfer_id = ''t2'', total_chunks = 1, completed_chunks = finished,
                    merkle_root = Some (hash_chunk sample_digest [0x61]),
                    state_chunk_size = 16384\<rparr>,
      merkle_tree = None, progress_callback = False, progress_log = [],
      file_path = Some ''out.bin''\<rparr>"

definition foreign_state_file :: state_data where
  "foreign_state_file =
     \<lparr>sd_transfer_id = Some ''t2'', sd_total_chunks = Some 1, sd_completed_chunks = Some [7],
      sd_chunk_size = Some 16384,
      sd_merkle_root = Some (to_hex (hash_chunk sample_digest [0x61])),
      sd_progress = Some (Percent 1 1)\<rparr>"

lemma resume_foreign_state_file:
  "resume_transfer (TransferStream_init ''t2'' None) (Parsed foreign_state_file)
     = (None, (whole_file_stream {7})\<lparr>file_path := None\<rparr>)"
  by (simp add: resume_transfer_def TransferStream_init_def foreign_state_file_def
        TransferState_init_def Let_def DEFAULT_CHUNK_SIZE_def fromhex_to_hex to_hex_empty_iff
        hash_chunk_def sample_digest_nonempty whole_file_stream_def update_progress_def)

lemma verify_whole_file:
  "verify_complete_file sample_digest ((whole_file_stream finished)\<lparr>file_path := fp\<rparr>) whole_file
     ''out.bin'' = (card finished = 1)"
proof -
  have bl: "build_levels sample_digest [x] = [[x]]" for x
    by (simp add: build_levels.simps)
  show ?thesis
    by (auto simp: verify_complete_file_def whole_file_stream_def whole_file_def is_complete_def
          chunk_file_one build_tree_def MerkleTree_init_def bl py_index_def hash_chunk_def
          sample_digest_nonempty)
qed

text \<open>
  Claim C10, as stated: \<^verbatim>\<open>verify_complete_file\<close> returns true only when the completed set
  equals \<open>{0, \<dots>, total_chunks - 1}\<close>. The guard \<^verbatim>\<open>is_complete\<close> compares the size of the
  completed set with \<open>total_chunks\<close>: in the stream that \<^verbatim>\<open>resume_transfer\<close> leaves after the
  state file above (one chunk, chunk 7 completed) the completed set is \<open>{7}\<close>, not \<open>{0}\<close>, and
  \<^verbatim>\<open>verify_complete_file\<close> returns true for the whole file.
\<close>

theorem size_guard_counterexample:
  "map_option completed_chunks
     (state (snd (resume_transfer (TransferStream_init ''t2'' None) (Parsed foreign_state_file))))
     = Some {7} \<and>
   map_option total_chunks
     (state (snd (resume_transfer (TransferStream_init ''t2'' None) (Parsed foreign_state_file))))
     = Some 1 \<and>
   {7} \<noteq> {0..<(1::int)} \<and>
   verify_complete_file sample_digest
     (snd (resume_transfer (TransferStream_init ''t2'' None) (Parsed foreign_state_file)))
     whole_file ''out.bin''"
proof -
  have "(7::int) \<notin> {0..<1}" by simp
  then have "{7} \<noteq> {0..<(1::int)}" by blast
  then show ?thesis
    by (simp add: resume_foreign_state_file verify_whole_file)
       (simp add: whole_file_stream_def)
qed

text \<open>
  Claim C10, amended: \<^verbatim>\<open>verify_complete_file\<close> returns true only when the in-memory transfer
  state exists, holds a (non-empty) expected Merkle root and its completed set has exactly
  \<open>total_chunks\<close> elements, which for a completed set within \<open>{0, \<dots>, total_chunks - 1}\<close>
  means that it is that set; whenever the completed set has another number of elements it
  returns false whatever the files hold, also when hashing the file again would give the
  expected root.
\<close>

theorem verify_complete_file_needs_completed_set:
  "(verify_complete_file H s fs path \<longrightarrow>
      (\<exists>st rt. state s = Some st \<and> merkle_root st = Some rt \<and> rt \<noteq> [] \<and>
               int (card (completed_chunks st)) = total_chunks st \<and>
               (state_inv st \<longrightarrow> completed_chunks st = {0..<total_chunks st}))) \<and>
   (\<forall>st. state s = Some st \<longrightarrow> int (card (completed_chunks st)) \<noteq> total_chunks st \<longrightarrow>
      (\<forall>fs' path'. \<not> verify_complete_file H s fs' path'))"
proof (intro conjI allI impI)
  assume v: "verify_complete_file H s fs path"
  then obtain st rt where st: "state s = Some st" and rt: "merkle_root st = Some rt" "rt \<noteq> []"
    and c: "is_complete st"
    by (auto simp: verify_complete_file_def split: option.splits if_splits)
  from c have n: "int (card (completed_chunks st)) = total_chunks st"
    by (simp add: is_complete_def)
  have "state_inv st \<longrightarrow> completed_chunks st = {0..<total_chunks st}"
    using complete_state_full[OF _ c] by blast
  with st rt n
  show "\<exists>st rt. state s = Some st \<and> merkle_root st = Some rt \<and> rt \<noteq> [] \<and>
                int (card (completed_chunks st)) = total_chunks st \<and>
                (state_inv st \<longrightarrow> completed_chunks st = {0..<total_chunks st})" by blast
next
  fix st fs' path'
  assume st: "state s = Some st" and ne: "int (card (completed_chunks st)) \<noteq> total_chunks st"
  then have "\<not> is_complete st" by (simp add: is_complete_def)
  with st show "\<not> verify_complete_file H s fs' path'"
    by (simp add: verify_complete_file_def split: option.splits)
qed

theorem verify_complete_file_needs_completed_set_witness:
  "state (whole_file_stream {}) \<noteq> None \<and>
   int (card (completed_chunks (the (state (whole_file_stream {})))))
     \<noteq> total_chunks (the (state (whole_file_stream {}))) \<and>
   \<not> verify_complete_file sample_digest (whole_file_stream {}) whole_file ''out.bin'' \<and>
   map_sum id fst (build_tree sample_digest (MerkleTree_init
      (Some (map (hash_chunk sample_digest) [[0x61]]))))
     = Inr (hash_chunk sample_digest [0x61]) \<and>
   chunk_file 16384 [0x61] = Inr [[0x61]] \<and>
   verify_complete_file sample_digest (whole_file_stream {0}) whole_file ''out.bin'' \<and>
   completed_chunks (the (state (whole_file_stream {0})))
     = {0..<total_chunks (the (state (whole_file_stream {0})))}"
proof -
  have st: "state (whole_file_stream {}) = Some (the (state (whole_file_stream {})))"
    by (simp add: whole_file_stream_def)
  have ne: "int (card (completed_chunks (the (state (whole_file_stream {})))))
              \<noteq> total_chunks (the (state (whole_file_stream {})))"
    by (simp add: whole_file_stream_def)
  have no: "\<not> verify_complete_file sample_digest (whole_file_stream {}) whole_file ''out.bin''"
    using verify_complete_file_needs_completed_set[of sample_digest "whole_file_stream {}"
        whole_file "''out.bin''"] st ne by blast
  have bl: "build_levels sample_digest [x] = [[x]]" for x
    by (simp add: build_levels.simps)
  have bt: "map_sum id fst (build_tree sample_digest (MerkleTree_init
      (Some (map (hash_chunk sample_digest) [[0x61]]))))
     = Inr (hash_chunk sample_digest [0x61])"
    by (simp add: build_tree_def MerkleTree_init_def bl py_index_def)
  have yes: "verify_complete_file sample_digest (whole_file_stream {0}) whole_file ''out.bin''"
    using verify_whole_file[where finished = "{0}" and fp = "Some ''out.bin''"] by (simp add: whole_file_stream_def)
  have full: "completed_chunks (the (state (whole_file_stream {0})))
                = {0..<total_chunks (the (state (whole_file_stream {0})))}"
    by (auto simp: whole_file_stream_def)
  have nn: "state (whole_file_stream {}) \<noteq> None"
    by (simp add: whole_file_stream_def)
  have cf: "chunk_file 16384 [0x61] = Inr [[0x61]]"
    by (rule chunk_file_one)
  from nn ne no bt cf yes full show ?thesis by (intro conjI)
qed

section \<open>crypto/identity.py\<close>

text \<open>The exceptions that can reach the handlers of \<^verbatim>\<open>verify_signature\<close>: PyNaCl's
  \<^verbatim>\<open>BadSignatureError\<close>, a \<^verbatim>\<open>ValueError\<close> with its message, and the \<^verbatim>\<open>CryptoError\<close> the body
  raises itself (a \<^verbatim>\<open>BeenetError\<close>, not a \<^verbatim>\<open>ValueError\<close>).\<close>

datatype verify_exn = BadSignatureError | ValueErr string | CryptoErr

text \<open>PyNaCl's \<^verbatim>\<open>VerifyKey(key)\<close> and \<^verbatim>\<open>VerifyKey.verify(message, signature)\<close>, by their
  documented contract: the key must have 32 bytes and a detached signature 64, each with
  its own \<^verbatim>\<open>ValueError\<close>; then the Ed25519 check decides. That check is the parameter
  \<open>ed_ok key message signature\<close>.\<close>

definition VerifyKey :: "bytes \<Rightarrow> verify_exn + bytes" where
  "VerifyKey key =
     (if length key \<noteq> 32 then Inl (ValueErr ''The key must be exactly 32 bytes long'')
      else Inr key)"

definition nacl_verify ::
  "(bytes \<Rightarrow> bytes \<Rightarrow> bytes \<Rightarrow> bool) \<Rightarrow> bytes \<Rightarrow> bytes \<Rightarrow> bytes \<Rightarrow> verify_exn + unit" where
  "nacl_verify ed_ok key message signature =
     (if length signature \<noteq> 64
      then Inl (ValueErr ''The signature must be exactly 64 bytes long'')
      else if ed_ok key message signature then Inr ()
      else Inl BadSignatureError)"

text \<open>The test \<^verbatim>\<open>sub in text\<close> on strings.\<close>

fun starts_with :: "string \<Rightarrow> string \<Rightarrow> bool" where
  "starts_with [] ys = True"
| "starts_with (x # xs) [] = False"
| "starts_with (x # xs) (y # ys) = (x = y \<and> starts_with xs ys)"

fun str_contains :: "string \<Rightarrow> string \<Rightarrow> bool" where
  "str_contains sub [] = (sub = [])"
| "str_contains sub (y # ys) = (starts_with sub (y # ys) \<or> str_contains sub ys)"

text \<open>The body of the \<^verbatim>\<open>try\<close> of \<^verbatim>\<open>Identity.verify_signature\<close>, then its handlers.\<close>

definition verify_signature_body ::
  "(bytes \<Rightarrow> bytes \<Rightarrow> bytes \<Rightarrow> bool) \<Rightarrow> bytes \<Rightarrow> bytes \<Rightarrow> bytes \<Rightarrow> verify_exn + bool" where
  "verify_signature_body ed_ok message signature public_key =
     (if length public_key \<noteq> 32 then Inl CryptoErr
      else case VerifyKey public_key of
             Inl e \<Rightarrow> Inl e
           | Inr verify_key \<Rightarrow>
               (case nacl_verify ed_ok verify_key message signature of
                  Inl e \<Rightarrow> Inl e
                | Inr u \<Rightarrow> Inr True))"

definition verify_signature ::
  "(bytes \<Rightarrow> bytes \<Rightarrow> bytes \<Rightarrow> bool) \<Rightarrow> bytes \<Rightarrow> bytes \<Rightarrow> bytes \<Rightarrow> error + bool" where
  "verify_signature ed_ok message signature public_key =
     (case verify_signature_body ed_ok message signature public_key of
        Inr b \<Rightarrow> Inr b
      | Inl BadSignatureError \<Rightarrow> Inr False
      | Inl (ValueErr text) \<Rightarrow>
          if str_contains ''signature must be exactly'' text then Inr False
          else Inl CryptoError
      | Inl CryptoErr \<Rightarrow> Inl CryptoError)"

subsection \<open>Outcomes of signature verification\<close>

lemma signature_message_matches:
  "str_contains ''signature must be exactly'' ''The signature must be exactly 64 bytes long''"
  by simp

text \<open>
  Claim C6, as stated: for a signature or a public key of a length other than 64 and 32
  bytes, verification returns false without raising. For a public key that is not 32 bytes
  long the body raises \<^verbatim>\<open>CryptoError\<close>, which the last handler raises again: here for the
  5-byte key \<^verbatim>\<open>short\<close> and a 60-byte signature, the lengths the repository's own test of
  this error uses.
\<close>

theorem short_key_raises_counterexample:
  "verify_signature (\<lambda>key message signature. True) [0x74, 0x65, 0x73, 0x74]
      (replicate 60 0) [0x73, 0x68, 0x6f, 0x72, 0x74] = Inl CryptoError \<and>
   verify_signature (\<lambda>key message signature. True) [0x74, 0x65, 0x73, 0x74]
      (replicate 60 0) [0x73, 0x68, 0x6f, 0x72, 0x74] \<noteq> Inr False"
  by (simp add: verify_signature_def verify_signature_body_def)

text \<open>
  Claim C6, amended: verification returns a boolean (the result of the Ed25519 check) for
  every 64-byte signature with every 32-byte public key; for a signature of any other
  length with a 32-byte public key it returns false without raising; for a public key of
  any other length it raises \<^verbatim>\<open>CryptoError\<close>, whatever the signature.
\<close>

theorem verify_signature_outcomes:
  "(length public_key = 32 \<longrightarrow> length signature = 64 \<longrightarrow>
      verify_signature ed_ok message signature public_key
        = Inr (ed_ok public_key message signature)) \<and>
   (length public_key = 32 \<longrightarrow> length signature \<noteq> 64 \<longrightarrow>
      verify_signature ed_ok message signature public_key = Inr False) \<and>
   (length public_key \<noteq> 32 \<longrightarrow>
      verify_signature ed_ok message signature public_key = Inl CryptoError)"
proof (intro conjI impI)
  assume k: "length public_key = 32" and s: "length signature = 64"
  then have "verify_signature_body ed_ok message signature public_key
               = (if ed_ok public_key message signature then Inr True else Inl BadSignatureError)"
    by (simp add: verify_signature_body_def VerifyKey_def nacl_verify_def)
  then show "verify_signature ed_ok message signature public_key
               = Inr (ed_ok public_key message signature)"
    by (simp add: verify_signature_def)
next
  assume k: "length public_key = 32" and s: "length signature \<noteq> 64"
  then have "verify_signature_body ed_ok message signature public_key
               = Inl (ValueErr ''The signature must be exactly 64 bytes long'')"
    by (simp add: verify_signature_body_def VerifyKey_def nacl_verify_def)
  then show "verify_signature ed_ok message signature public_key = Inr False"
    using signature_message_matches by (simp add: verify_signature_def)
next
  assume "length public_key \<noteq> 32"
  then show "verify_signature ed_ok message signature public_key = Inl CryptoError"
    by (simp add: verify_signature_def verify_signature_body_def)
qed

theorem verify_signature_outcomes_witness:
  "verify_signature (\<lambda>key message signature. signature = replicate 64 7) [1, 2, 3]
      (replicate 64 7) (replicate 32 9) = Inr True \<and>
   verify_signature (\<lambda>key message signature. signature = replicate 64 7) [1, 2, 3]
      (replicate 64 8) (replicate 32 9) = Inr False \<and>
   verify_signature (\<lambda>key message signature. signature = replicate 64 7) [1, 2, 3]
      (replicate 67 7) (replicate 32 9) = Inr False \<and>
   verify_signature (\<lambda>key message signature. signature = replicate 64 7) [1, 2, 3]
      (replicate 64 7) (replicate 31 9) = Inl CryptoError"
  using verify_signature_outcomes[of "replicate 32 9" "replicate 64 7"
          "\<lambda>key message signature. signature = replicate 64 7" "[1, 2, 3]"]
        verify_signature_outcomes[of "replicate 32 9" "replicate 64 8"
          "\<lambda>key message signature. signature = replicate 64 7" "[1, 2, 3]"]
        verify_signature_outcomes[of "replicate 32 9" "replicate 67 7"
          "\<lambda>key message signature. signature = replicate 64 7" "[1, 2, 3]"]
        verify_signature_outcomes[of "replicate 31 9" "replicate 64 7"
          "\<lambda>key message signature. signature = replicate 64 7" "[1, 2, 3]"]
  by (simp add: replicate_eq_replicate)

section \<open>core/resilience.py\<close>

datatype PeerState = UNKNOWN | CONNECTING | CONNECTED | DISCONNECTED | FAILED | BLACKLISTED

subsection \<open>Python floats\<close>

text \<open>The functions of the module compute with Python floats. Their arithmetic is a parameter
  of the model, a record of the operations the module uses over a carrier \<open>'f\<close>: the value
  of a decimal or integer literal, the four operations, the comparison \<^verbatim>\<open><\<close>, the true
  division of two ints (which raises \<^verbatim>\<open>ZeroDivisionError\<close> or \<^verbatim>\<open>OverflowError\<close>), and \<^verbatim>\<open>sum\<close>
  over a list. \<open>f_div\<close> is used with the divisors \<^verbatim>\<open>1000.0\<close> and \<^verbatim>\<open>len(...) \<ge> 1\<close> only, never
  with zero.\<close>

record 'f float_ops =
  f_lit :: "rat \<Rightarrow> 'f"
  f_add :: "'f \<Rightarrow> 'f \<Rightarrow> 'f"
  f_sub :: "'f \<Rightarrow> 'f \<Rightarrow> 'f"
  f_mul :: "'f \<Rightarrow> 'f \<Rightarrow> 'f"
  f_div :: "'f \<Rightarrow> 'f \<Rightarrow> 'f"
  f_less :: "'f \<Rightarrow> 'f \<Rightarrow> bool"
  f_ratio :: "int \<Rightarrow> int \<Rightarrow> error + 'f"
  f_sum :: "'f list \<Rightarrow> 'f"

text \<open>The builtins \<^verbatim>\<open>max(a, b)\<close> and \<^verbatim>\<open>min(a, b)\<close> keep the first argument unless the second
  is greater, respectively less.\<close>

definition py_max :: "'f float_ops \<Rightarrow> 'f \<Rightarrow> 'f \<Rightarrow> 'f" where
  "py_max ops a b = (if f_less ops a b then b else a)"

definition py_min :: "'f float_ops \<Rightarrow> 'f \<Rightarrow> 'f \<Rightarrow> 'f" where
  "py_min ops a b = (if f_less ops b a then b else a)"

text \<open>The floats of CPython are the binary64 numbers of IEEE 754: the finite ones are
  rationals \<open>m \<cdot> 2\<^sup>e\<close> with \<open>\<bar>m\<bar> < 2\<^sup>5\<^sup>3\<close> and \<open>- 1074 \<le> e \<le> 971\<close>. The sign of a zero, which no
  operation of this module observes, is not kept.\<close>

datatype pyfloat = Finite rat | PInf | NInf | NaN

function bit_length :: "int \<Rightarrow> int" where
  "bit_length n = (if n \<le> 0 then 0 else 1 + bit_length (n div 2))"
  by pat_completeness auto
termination
  by (relation "measure nat") auto

declare bit_length.simps [simp del]

definition pow2 :: "int \<Rightarrow> rat" where
  "pow2 e = (if 0 \<le> e then 2 ^ nat e else 1 / 2 ^ nat (- e))"

text \<open>\<open>ilog2 q\<close> is the exponent \<open>e\<close> with \<open>2\<^sup>e \<le> q < 2\<^sup>e\<^sup>+\<^sup>1\<close>, for \<open>q > 0\<close>.\<close>

definition ilog2 :: "rat \<Rightarrow> int" where
  "ilog2 q = (if 1 \<le> q then bit_length \<lfloor>q\<rfloor> - 1 else - bit_length (\<lceil>1 / q\<rceil> - 1))"

definition round_half_even :: "rat \<Rightarrow> int" where
  "round_half_even s =
     (let f = \<lfloor>s\<rfloor>; d = s - of_int f
      in if d < 1 / 2 then f else if 1 / 2 < d then f + 1 else if even f then f else f + 1)"

text \<open>Rounding to the nearest float, ties to the even significand: the exact result is
  rounded to a multiple of the spacing of the floats around it (53 bits, or \<open>2\<^sup>-\<^sup>1\<^sup>0\<^sup>7\<^sup>4\<close>
  among the subnormal numbers), and a result of magnitude \<open>2\<^sup>1\<^sup>0\<^sup>2\<^sup>4\<close> is infinite.\<close>

definition finite_or_inf :: "rat \<Rightarrow> pyfloat" where
  "finite_or_inf r = (if pow2 1024 \<le> \<bar>r\<bar> then (if 0 < r then PInf else NInf) else Finite r)"

definition rne :: "rat \<Rightarrow> pyfloat" where
  "rne q =
     (if q = 0 then Finite 0
      else (let quantum = pow2 (max (ilog2 \<bar>q\<bar> - 52) (- 1074))
            in finite_or_inf (of_int (round_half_even (q / quantum)) * quantum)))"

fun fl_neg :: "pyfloat \<Rightarrow> pyfloat" where
  "fl_neg (Finite a) = Finite (- a)"
| "fl_neg PInf = NInf"
| "fl_neg NInf = PInf"
| "fl_neg NaN = NaN"

fun fl_add :: "pyfloat \<Rightarrow> pyfloat \<Rightarrow> pyfloat" where
  "fl_add (Finite a) (Finite b) = rne (a + b)"
| "fl_add NaN y = NaN"
| "fl_add x NaN = NaN"
| "fl_add PInf NInf = NaN"
| "fl_add NInf PInf = NaN"
| "fl_add PInf y = PInf"
| "fl_add NInf y = NInf"
| "fl_add (Finite a) y = y"

definition fl_sub :: "pyfloat \<Rightarrow> pyfloat \<Rightarrow> pyfloat" where
  "fl_sub x y = fl_add x (fl_neg y)"

fun fl_sign :: "pyfloat \<Rightarrow> int" where
  "fl_sign (Finite a) = (if 0 < a then 1 else if a < 0 then - 1 else 0)"
| "fl_sign PInf = 1"
| "fl_sign NInf = - 1"
| "fl_sign NaN = 0"

fun fl_mul :: "pyfloat \<Rightarrow> pyfloat \<Rightarrow> pyfloat" where
  "fl_mul (Finite a) (Finite b) = rne (a * b)"
| "fl_mul NaN y = NaN"
| "fl_mul x NaN = NaN"
| "fl_mul x y = (if fl_sign x * fl_sign y = 0 then NaN
                 else if 0 < fl_sign x * fl_sign y then PInf else NInf)"

text \<open>Division, for a divisor other than zero (Python raises \<^verbatim>\<open>ZeroDivisionError\<close> for
  zero; \<open>NaN\<close> stands in for it here).\<close>

fun fl_div :: "pyfloat \<Rightarrow> pyfloat \<Rightarrow> pyfloat" where
  "fl_div (Finite a) (Finite b) = (if b = 0 then NaN else rne (a / b))"
| "fl_div NaN y = NaN"
| "fl_div x NaN = NaN"
| "fl_div (Finite a) y = Finite 0"
| "fl_div x (Finite b) = (if b = 0 then NaN
                          else if 0 < fl_sign x * (if b < 0 then - 1 else 1) then PInf else NInf)"
| "fl_div x y = NaN"

fun fl_less :: "pyfloat \<Rightarrow> pyfloat \<Rightarrow> bool" where
  "fl_less (Finite a) (Finite b) = (a < b)"
| "fl_less NaN y = False"
| "fl_less x NaN = False"
| "fl_less x NInf = False"
| "fl_less PInf y = False"
| "fl_less x PInf = True"
| "fl_less NInf y = True"

text \<open>\<^verbatim>\<open>a / b\<close> for ints is the correctly rounded quotient, and \<^verbatim>\<open>OverflowError\<close> when that is
  no finite float. \<^verbatim>\<open>sum\<close> adds from the left, starting at zero (CPython up to 3.11; later
  versions compensate the rounding of the partial sums). It is used for the latency
  samples only, which no state update records.\<close>

definition fl_ratio :: "int \<Rightarrow> int \<Rightarrow> error + pyfloat" where
  "fl_ratio a b =
     (if b = 0 then Inl ZeroDivisionError
      else case rne (of_int a / of_int b) of
             Finite r \<Rightarrow> Inr (Finite r)
           | _ \<Rightarrow> Inl OverflowError)"

definition fl_sum :: "pyfloat list \<Rightarrow> pyfloat" where
  "fl_sum xs = foldl fl_add (Finite 0) xs"

definition py_float_ops :: "pyfloat float_ops" where
  "py_float_ops =
     \<lparr>f_lit = rne, f_add = fl_add, f_sub = fl_sub, f_mul = fl_mul, f_div = fl_div,
      f_less = fl_less, f_ratio = fl_ratio, f_sum = fl_sum\<rparr>"

subsection \<open>Scores, policy and manager\<close>

text \<open>\<^verbatim>\<open>PeerScore\<close>. The clock \<^verbatim>\<open>time.time()\<close> is the parameter \<open>now\<close> of the functions that
  read it, one reading for a call.\<close>

record 'f PeerScore =
  connection_success_rate :: 'f
  average_latency :: 'f
  transfer_success_rate :: 'f
  uptime_ratio :: 'f
  last_seen :: 'f
  total_connections :: int
  successful_connections :: int
  failed_connections :: int
  total_transfers :: int
  successful_transfers :: int
  failed_transfers :: int
  latency_samples :: "'f list"

definition PeerScore_init :: "'f float_ops \<Rightarrow> 'f PeerScore" where
  "PeerScore_init ops =
     \<lparr>connection_success_rate = f_lit ops 1, average_latency = f_lit ops 0,
      transfer_success_rate = f_lit ops 1, uptime_ratio = f_lit ops 1, last_seen = f_lit ops 0,
      total_connections = 0, successful_connections = 0, failed_connections = 0,
      total_transfers = 0, successful_transfers = 0, failed_transfers = 0,
      latency_samples = []\<rparr>"

definition record_latency :: "'f float_ops \<Rightarrow> 'f PeerScore \<Rightarrow> 'f \<Rightarrow> 'f PeerScore" where
  "record_latency ops sc latency =
     (let samples = latency_samples sc @ [latency];
          samples = (if length samples > 20 then drop (length samples - 20) samples else samples)
      in sc\<lparr>latency_samples := samples,
            average_latency := f_div ops (f_sum ops samples) (f_lit ops (of_nat (length samples)))\<rparr>)"

text \<open>\<^verbatim>\<open>update_connection_attempt\<close> and \<^verbatim>\<open>update_transfer_attempt\<close> update the object in place:
  when the division for the success rate raises, the counts are updated already.\<close>

definition update_connection_attempt ::
  "'f float_ops \<Rightarrow> 'f PeerScore \<Rightarrow> bool \<Rightarrow> 'f option \<Rightarrow> 'f \<Rightarrow> error option \<times> 'f PeerScore" where
  "update_connection_attempt ops sc success latency now =
     (let sc = sc\<lparr>total_connections := total_connections sc + 1\<rparr>;
          sc = (if success
                then (let sc = sc\<lparr>successful_connections := successful_connections sc + 1,
                                   last_seen := now\<rparr>
                      in case latency of None \<Rightarrow> sc | Some l \<Rightarrow> record_latency ops sc l)
                else sc\<lparr>failed_connections := failed_connections sc + 1\<rparr>)
      in if total_connections sc > 0
         then (case f_ratio ops (successful_connections sc) (total_connections sc) of
                 Inl e \<Rightarrow> (Some e, sc)
               | Inr r \<Rightarrow> (None, sc\<lparr>connection_success_rate := r\<rparr>))
         else (None, sc))"

definition update_transfer_attempt ::
  "'f float_ops \<Rightarrow> 'f PeerScore \<Rightarrow> bool \<Rightarrow> error option \<times> 'f PeerScore" where
  "update_transfer_attempt ops sc success =
     (let sc = sc\<lparr>total_transfers := total_transfers sc + 1\<rparr>;
          sc = (if success then sc\<lparr>successful_transfers := successful_transfers sc + 1\<rparr>
                else sc\<lparr>failed_transfers := failed_transfers sc + 1\<rparr>)
      in if total_transfers sc > 0
         then (case f_ratio ops (successful_transfers sc) (total_transfers sc) of
                 Inl e \<Rightarrow> (Some e, sc)
               | Inr r \<Rightarrow> (None, sc\<lparr>transfer_success_rate := r\<rparr>))
         else (None, sc))"

definition calculate_overall_score :: "'f float_ops \<Rightarrow> 'f PeerScore \<Rightarrow> 'f" where
  "calculate_overall_score ops sc =
     (let connection_weight = f_lit ops (3 / 10);
          transfer_weight = f_lit ops (3 / 10);
          latency_weight = f_lit ops (2 / 10);
          uptime_weight = f_lit ops (2 / 10);
          latency_score =
            (if f_less ops (f_lit ops 0) (average_latency sc)
             then py_max ops (f_lit ops 0)
                    (f_sub ops (f_lit ops 1) (f_div ops (average_latency sc) (f_lit ops 1000)))
             else f_lit ops 1);
          score = f_add ops
                    (f_add ops
                       (f_add ops (f_mul ops (connection_success_rate sc) connection_weight)
                                  (f_mul ops (transfer_success_rate sc) transfer_weight))
                       (f_mul ops latency_score latency_weight))
                    (f_mul ops (uptime_ratio sc) uptime_weight)
      in py_max ops (f_lit ops 0) (py_min ops (f_lit ops 1) score))"

definition should_blacklist :: "'f float_ops \<Rightarrow> 'f PeerScore \<Rightarrow> 'f \<Rightarrow> bool" where
  "should_blacklist ops sc now =
     (if total_connections sc \<ge> 10 \<and> f_less ops (connection_success_rate sc) (f_lit ops (1 / 10))
      then True
      else if total_transfers sc \<ge> 5 \<and> f_less ops (transfer_success_rate sc) (f_lit ops (2 / 10))
      then True
      else (let time_since_seen = f_sub ops now (last_seen sc)
            in if f_less ops (f_lit ops 86400) time_since_seen then True else False))"

record 'f ReconnectionPolicy =
  max_attempts :: int
  initial_delay :: 'f
  max_delay :: 'f
  backoff_multiplier :: 'f
  jitter :: bool
  min_score_for_retry :: 'f
  blacklist_threshold :: 'f
  failure_window :: 'f
  blacklist_duration :: 'f

definition ReconnectionPolicy_default :: "'f float_ops \<Rightarrow> 'f ReconnectionPolicy" where
  "ReconnectionPolicy_default ops =
     \<lparr>max_attempts = 10, initial_delay = f_lit ops 1, max_delay = f_lit ops 300,
      backoff_multiplier = f_lit ops 2, jitter = True, min_score_for_retry = f_lit ops (1 / 10),
      blacklist_threshold = f_lit ops (5 / 100), failure_window = f_lit ops 3600,
      blacklist_duration = f_lit ops 86400\<rparr>"

text \<open>The calls the manager makes to its callbacks, the latest first.\<close>

datatype 'f callback_call = ScoreUpdated string "'f PeerScore" | Blacklisted string "'f PeerScore"

text \<open>\<^verbatim>\<open>PeerResilienceManager\<close>. Of a reconnection task only its presence matters here;
  \<open>score_update_callback\<close> and \<open>blacklist_callback\<close> tell whether the callback is set.\<close>

record 'f PeerResilienceManager =
  policy :: "'f ReconnectionPolicy"
  peer_scores :: "string \<Rightarrow> 'f PeerScore option"
  peer_states :: "string \<Rightarrow> PeerState option"
  reconnection_tasks :: "string set"
  blacklisted_peers :: "string \<Rightarrow> 'f option"
  score_update_callback :: bool
  blacklist_callback :: bool
  callback_calls :: "'f callback_call list"

definition PeerResilienceManager_init ::
  "'f float_ops \<Rightarrow> 'f ReconnectionPolicy option \<Rightarrow> 'f PeerResilienceManager" where
  "PeerResilienceManager_init ops p =
     \<lparr>policy = (case p of None \<Rightarrow> ReconnectionPolicy_default ops | Some q \<Rightarrow> q),
      peer_scores = Map.empty, peer_states = Map.empty, reconnection_tasks = {},
      blacklisted_peers = Map.empty, score_update_callback = False,
      blacklist_callback = False, callback_calls = []\<rparr>"

definition get_peer_score ::
  "'f float_ops \<Rightarrow> 'f PeerResilienceManager \<Rightarrow> string
     \<Rightarrow> 'f PeerScore \<times> 'f PeerResilienceManager" where
  "get_peer_score ops m peer =
     (case peer_scores m peer of
        None \<Rightarrow> (PeerScore_init ops,
                 m\<lparr>peer_scores := (peer_scores m)(peer \<mapsto> PeerScore_init ops)\<rparr>)
      | Some sc \<Rightarrow> (sc, m))"

definition cancel_reconnection ::
  "'f PeerResilienceManager \<Rightarrow> string \<Rightarrow> 'f PeerResilienceManager" where
  "cancel_reconnection m peer = m\<lparr>reconnection_tasks := reconnection_tasks m - {peer}\<rparr>"

text \<open>The score \<^verbatim>\<open>update_peer_state\<close> tests for blacklisting: the peer's score (a fresh one
  for an unknown peer) after the connection attempt the state change stands for, with the
  exception that attempt has raised, if any.\<close>

definition score_after ::
  "'f float_ops \<Rightarrow> 'f PeerResilienceManager \<Rightarrow> string \<Rightarrow> PeerState \<Rightarrow> 'f
     \<Rightarrow> error option \<times> 'f PeerScore" where
  "score_after ops m peer new_state now =
     (let old_state = (case peer_states m peer of None \<Rightarrow> UNKNOWN | Some x \<Rightarrow> x);
          sc = fst (get_peer_score ops m peer)
      in if new_state = CONNECTED \<and> (old_state = CONNECTING \<or> old_state = DISCONNECTED)
         then update_connection_attempt ops sc True None now
         else if new_state = FAILED then update_connection_attempt ops sc False None now
         else (None, sc))"

text \<open>\<^verbatim>\<open>update_peer_state\<close> and \<^verbatim>\<open>_blacklist_peer\<close> call each other. The first argument is
  the number of stack frames left: a call that finds none raises \<^verbatim>\<open>RecursionError\<close>, which
  no frame of the two functions catches. The manager is returned with the error, as the
  assignments made before the exception stay. The \<^verbatim>\<open>PeerScore\<close> object is shared with
  \<open>peer_scores\<close>, so the updated score is stored back.\<close>

fun update_peer_state ::
    "nat \<Rightarrow> 'f float_ops \<Rightarrow> 'f \<Rightarrow> 'f PeerResilienceManager \<Rightarrow> string \<Rightarrow> PeerState
       \<Rightarrow> error option \<times> 'f PeerResilienceManager"
  and blacklist_peer ::
    "nat \<Rightarrow> 'f float_ops \<Rightarrow> 'f \<Rightarrow> 'f PeerResilienceManager \<Rightarrow> string \<Rightarrow> 'f PeerScore
       \<Rightarrow> error option \<times> 'f PeerResilienceManager" where
  "update_peer_state 0 ops now m peer new_state = (Some RecursionError, m)"
| "update_peer_state (Suc frames) ops now m peer new_state =
     (let raised = fst (score_after ops m peer new_state now);
          sc = snd (score_after ops m peer new_state now);
          m = m\<lparr>peer_states := (peer_states m)(peer \<mapsto> new_state),
                peer_scores := (peer_scores m)(peer \<mapsto> sc)\<rparr>
      in case raised of
           Some e \<Rightarrow> (Some e, m)
         | None \<Rightarrow>
            (case (if should_blacklist ops sc now
                      \<and> f_less ops (calculate_overall_score ops sc) (blacklist_threshold (policy m))
                   then blacklist_peer frames ops now m peer sc
                   else (None, m)) of
               (Some e, m) \<Rightarrow> (Some e, m)
             | (None, m) \<Rightarrow>
                 (None, if score_update_callback m
                        then m\<lparr>callback_calls := ScoreUpdated peer sc # callback_calls m\<rparr>
                        else m)))"
| "blacklist_peer 0 ops now m peer sc = (Some RecursionError, m)"
| "blacklist_peer (Suc frames) ops now m peer sc =
     (let m = m\<lparr>blacklisted_peers := (blacklisted_peers m)(peer \<mapsto> now)\<rparr>
      in case update_peer_state frames ops now m peer BLACKLISTED of
           (Some e, m) \<Rightarrow> (Some e, m)
         | (None, m) \<Rightarrow>
             (let m = cancel_reconnection m peer
              in (None, if blacklist_callback m
                        then m\<lparr>callback_calls := Blacklisted peer sc # callback_calls m\<rparr>
                        else m)))"

text \<open>The entry conditions in the words of the specification, with the comparisons and the
  subtraction of the floats.\<close>

definition entry_condition :: "'f float_ops \<Rightarrow> 'f PeerScore \<Rightarrow> 'f \<Rightarrow> bool" where
  "entry_condition ops sc now =
     ((total_connections sc \<ge> 10 \<and> f_less ops (connection_success_rate sc) (f_lit ops (1 / 10))) \<or>
      (total_transfers sc \<ge> 5 \<and> f_less ops (transfer_success_rate sc) (f_lit ops (2 / 10))) \<or>
      f_less ops (f_lit ops 86400) (f_sub ops now (last_seen sc)))"

subsection \<open>Blacklisting at a state update\<close>

lemma should_blacklist_entry_condition:
  "should_blacklist ops sc now = entry_condition ops sc now"
  by (auto simp: should_blacklist_def entry_condition_def Let_def)

text \<open>The two functions touch the blacklist at the peer only, and only to enter it at
  \<open>now\<close>.\<close>

lemma blacklist_changes:
  "(\<forall>m st. blacklisted_peers (snd (update_peer_state n ops now m peer st)) = blacklisted_peers m \<or>
            blacklisted_peers (snd (update_peer_state n ops now m peer st))
              = (blacklisted_peers m)(peer \<mapsto> now)) \<and>
   (\<forall>m sc. blacklisted_peers (snd (blacklist_peer n ops now m peer sc))
              = (if n = 0 then blacklisted_peers m else (blacklisted_peers m)(peer \<mapsto> now)))"
proof (induction n)
  case 0
  show ?case by simp
next
  case (Suc n)
  have upd: "blacklisted_peers (snd (update_peer_state (Suc n) ops now m peer st))
               = blacklisted_peers m \<or>
             blacklisted_peers (snd (update_peer_state (Suc n) ops now m peer st))
               = (blacklisted_peers m)(peer \<mapsto> now)" for m st
  proof -
    let ?sc = "snd (score_after ops m peer st now)"
    let ?m1 = "m\<lparr>peer_states := (peer_states m)(peer \<mapsto> st),
                 peer_scores := (peer_scores m)(peer \<mapsto> ?sc)\<rparr>"
    from Suc have b: "blacklisted_peers (snd (blacklist_peer n ops now ?m1 peer ?sc))
              = (if n = 0 then blacklisted_peers ?m1 else (blacklisted_peers ?m1)(peer \<mapsto> now))"
      by blast
    show ?thesis
    proof (cases "fst (score_after ops m peer st now)")
      case (Some e)
      then show ?thesis by (simp add: Let_def)
    next
      case None
      show ?thesis
      proof (cases "blacklist_peer n ops now ?m1 peer ?sc")
        case (Pair e m2)
        with b None show ?thesis
          by (cases e) (auto simp: Let_def split: if_splits)
      qed
    qed
  qed
  have bl: "blacklisted_peers (snd (blacklist_peer (Suc n) ops now m peer sc))
              = (blacklisted_peers m)(peer \<mapsto> now)" for m sc
  proof -
    let ?m1 = "m\<lparr>blacklisted_peers := (blacklisted_peers m)(peer \<mapsto> now)\<rparr>"
    from Suc have u: "blacklisted_peers (snd (update_peer_state n ops now ?m1 peer BLACKLISTED))
                        = blacklisted_peers ?m1 \<or>
                      blacklisted_peers (snd (update_peer_state n ops now ?m1 peer BLACKLISTED))
                        = (blacklisted_peers ?m1)(peer \<mapsto> now)"
      by blast
    show ?thesis
    proof (cases "update_peer_state n ops now ?m1 peer BLACKLISTED")
      case (Pair e m2)
      with u show ?thesis
        by (cases e) (auto simp: Let_def cancel_reconnection_def)
    qed
  qed
  have bl': "blacklisted_peers (snd (blacklist_peer (Suc n) ops now m peer sc))
              = (if Suc n = 0 then blacklisted_peers m else (blacklisted_peers m)(peer \<mapsto> now))"
    for m sc
    unfolding bl by simp
  from upd bl' show ?case by blast
qed

text \<open>Once the test for blacklisting succeeds it succeeds again in the nested call for the
  state \<open>BLACKLISTED\<close>, which changes neither the score nor the policy: the two functions
  call each other until the stack is exhausted.\<close>

lemma blacklisting_recursion:
  "(\<forall>m::'f PeerResilienceManager. peer_scores m peer = Some sc \<longrightarrow> should_blacklist ops sc now \<longrightarrow>
         f_less ops (calculate_overall_score ops sc) (blacklist_threshold (policy m)) \<longrightarrow>
         fst (update_peer_state n ops now m peer BLACKLISTED) = Some RecursionError \<and>
         fst (blacklist_peer n ops now m peer sc) = Some RecursionError)"
proof (induction n)
  case 0
  show ?case by simp
next
  case (Suc n)
  show ?case
  proof (intro allI impI)
    fix m :: "'f PeerResilienceManager"
    assume sc: "peer_scores m peer = Some sc" and sb: "should_blacklist ops sc now"
      and low: "f_less ops (calculate_overall_score ops sc) (blacklist_threshold (policy m))"
    have sa: "score_after ops m peer BLACKLISTED now = (None, sc)"
      using sc by (simp add: score_after_def get_peer_score_def)
    let ?m1 = "m\<lparr>peer_states := (peer_states m)(peer \<mapsto> BLACKLISTED),
                 peer_scores := (peer_scores m)(peer \<mapsto> sc)\<rparr>"
    have "fst (blacklist_peer n ops now ?m1 peer sc) = Some RecursionError"
      using Suc sb low by simp
    then obtain m2 where b: "blacklist_peer n ops now ?m1 peer sc = (Some RecursionError, m2)"
      by (cases "blacklist_peer n ops now ?m1 peer sc") auto
    have u: "fst (update_peer_state (Suc n) ops now m peer BLACKLISTED) = Some RecursionError"
      using sb low b by (simp add: sa Let_def)
    let ?m3 = "m\<lparr>blacklisted_peers := (blacklisted_peers m)(peer \<mapsto> now)\<rparr>"
    have "fst (update_peer_state n ops now ?m3 peer BLACKLISTED) = Some RecursionError"
      using Suc sc sb low by simp
    then obtain m4 where
      "update_peer_state n ops now ?m3 peer BLACKLISTED = (Some RecursionError, m4)"
      by (cases "update_peer_state n ops now ?m3 peer BLACKLISTED") auto
    then have "fst (blacklist_peer (Suc n) ops now m peer sc) = Some RecursionError"
      by (simp add: Let_def)
    with u show "fst (update_peer_state (Suc n) ops now m peer BLACKLISTED) = Some RecursionError \<and>
                 fst (blacklist_peer (Suc n) ops now m peer sc) = Some RecursionError"
      by simp
  qed
qed

lemma blacklisting_raises_RecursionError:
  assumes "fst (score_after ops m peer st now) = None"
    and "should_blacklist ops (snd (score_after ops m peer st now)) now"
    and "f_less ops (calculate_overall_score ops (snd (score_after ops m peer st now)))
           (blacklist_threshold (policy m))"
  shows "fst (update_peer_state n ops now m peer st) = Some RecursionError"
proof (cases n)
  case 0
  then show ?thesis by simp
next
  case (Suc k)
  let ?sc = "snd (score_after ops m peer st now)"
  let ?m1 = "m\<lparr>peer_states := (peer_states m)(peer \<mapsto> st),
               peer_scores := (peer_scores m)(peer \<mapsto> ?sc)\<rparr>"
  have "fst (blacklist_peer k ops now ?m1 peer ?sc) = Some RecursionError"
    using blacklisting_recursion[of peer ?sc ops now k] assms by simp
  then obtain m2 where "blacklist_peer k ops now ?m1 peer ?sc = (Some RecursionError, m2)"
    by (cases "blacklist_peer k ops now ?m1 peer ?sc") auto
  with assms Suc show ?thesis by (simp add: Let_def)
qed

subsection \<open>Evaluation in binary64\<close>

lemma floor_rat_numeral [simp]:
  "\<lfloor>(numeral a :: rat) / numeral b\<rfloor> = numeral a div numeral b"
  using floor_divide_of_int_eq[of "numeral a" "numeral b", where ?'a = rat] by simp

lemma ceiling_rat_numeral [simp]:
  "\<lceil>(numeral a :: rat) / numeral b\<rceil> = - (- numeral a div numeral b)"
  using ceiling_divide_eq_div[of "numeral a" "numeral b"] by simp

lemma pow2_negative: "e < 0 \<Longrightarrow> pow2 e = 1 / 2 ^ nat (- e)"
  by (simp add: pow2_def)

lemma pow2_small: "0 \<le> e \<Longrightarrow> e < 1024 \<Longrightarrow> pow2 e = 2 ^ nat e"
  by (simp add: pow2_def)

lemma finite_or_inf_small: "\<bar>r\<bar> < 2 ^ 63 \<Longrightarrow> finite_or_inf r = Finite r"
proof -
  assume a: "\<bar>r\<bar> < 2 ^ 63"
  have "(2::rat) ^ 63 \<le> 2 ^ 1024" by (rule power_increasing) simp_all
  then have "\<bar>r\<bar> < pow2 1024" using a by (simp add: pow2_def)
  then show ?thesis by (simp add: finite_or_inf_def)
qed

lemmas rne_eval = rne_def ilog2_def pow2_negative pow2_small finite_or_inf_small
  round_half_even_def bit_length.simps Let_def

lemma rne_literals:
  "rne 0 = Finite 0"
  "rne 1 = Finite 1"
  "rne 1000 = Finite 1000"
  "rne 86400 = Finite 86400"
  "rne (1 / 10) = Finite (3602879701896397 / 36028797018963968)"
  "rne (1 / 5) = Finite (3602879701896397 / 18014398509481984)"
  "rne (3 / 10) = Finite (5404319552844595 / 18014398509481984)"
  "rne (1 / 20) = Finite (3602879701896397 / 72057594037927936)"
  "rne (3 / 4) = Finite (3 / 4)"
  "rne (17 / 20) = Finite (7656119366529843 / 9007199254740992)"
  "rne (864001 / 10) = Finite (2968684830969037 / 34359738368)"
  by (simp_all add: rne_eval)

text \<open>The floats round: \<^verbatim>\<open>1.0 * 0.3 + 0.5 * 0.3 + 1.0 * 0.2 + 1.0 * 0.2\<close> is
  \<^verbatim>\<open>0.8499999999999999\<close>, below \<^verbatim>\<open>0.85\<close>, and \<^verbatim>\<open>86400.1 - 0.1\<close> is \<^verbatim>\<open>86400.0\<close>, not above
  \<^verbatim>\<open>86400\<close>.\<close>

lemma overall_score_finite:
  assumes "connection_success_rate sc = Finite c" "transfer_success_rate sc = Finite t"
    and "average_latency sc = Finite 0" "uptime_ratio sc = Finite u"
    and "fl_add (fl_add (fl_add (fl_mul (Finite c) (rne (3 / 10))) (fl_mul (Finite t) (rne (3 / 10))))
                        (fl_mul (Finite 1) (rne (1 / 5))))
                (fl_mul (Finite u) (rne (1 / 5))) = Finite s"
    and "0 \<le> s" "s \<le> 1"
  shows "calculate_overall_score py_float_ops sc = Finite s"
proof -
  have lit: "rne 0 = Finite 0" "rne 1 = Finite 1"
    by (simp_all add: rne_eval)
  have fifth: "(2::rat) / 10 = 1 / 5" by simp
  show ?thesis
    unfolding calculate_overall_score_def Let_def py_float_ops_def py_max_def py_min_def
    using assms(6,7)
    by (simp only: float_ops.simps assms(1-5) lit fifth fl_less.simps if_False if_True
          not_less split: if_splits) auto
qed

lemma score_below_085:
  "calculate_overall_score py_float_ops
     ((PeerScore_init py_float_ops)\<lparr>transfer_success_rate := Finite (1 / 2)\<rparr>)
     = Finite (3828059683264921 / 4503599627370496) \<and>
   fl_less (Finite (3828059683264921 / 4503599627370496)) (rne (85 / 100))"
proof -
  have "calculate_overall_score py_float_ops
     ((PeerScore_init py_float_ops)\<lparr>transfer_success_rate := Finite (1 / 2)\<rparr>)
     = Finite (3828059683264921 / 4503599627370496)"
    by (rule overall_score_finite[where c = 1 and t = "1 / 2" and u = 1])
       (simp_all add: PeerScore_init_def py_float_ops_def rne_eval)
  moreover have "fl_less (Finite (3828059683264921 / 4503599627370496)) (rne (85 / 100))"
    by (simp add: rne_eval)
  ultimately show ?thesis by simp
qed

lemma one_day_rounds:
  "fl_sub (rne (864001 / 10)) (rne (1 / 10)) = Finite 86400 \<and>
   \<not> should_blacklist py_float_ops ((PeerScore_init py_float_ops)\<lparr>last_seen := rne (1 / 10)\<rparr>)
       (rne (864001 / 10))"
proof -
  have s: "fl_sub (Finite (2968684830969037 / 34359738368))
                  (Finite (3602879701896397 / 36028797018963968)) = Finite 86400"
    by (simp add: fl_sub_def rne_eval)
  then show ?thesis
    by (simp add: should_blacklist_def PeerScore_init_def py_float_ops_def rne_literals)
qed

text \<open>A policy with a blacklist threshold of 0.75, and the score of an unknown peer after a
  first, failed connection: its overall score, \<^verbatim>\<open>0.0 * 0.3 + 1.0 * 0.3 + 1.0 * 0.2 + 1.0 * 0.2\<close>,
  is the float \<^verbatim>\<open>0.7\<close>.\<close>

definition strict_policy :: "pyfloat ReconnectionPolicy" where
  "strict_policy = (ReconnectionPolicy_default py_float_ops)\<lparr>blacklist_threshold := rne (3 / 4)\<rparr>"

definition failed_once :: "pyfloat PeerScore" where
  "failed_once = (PeerScore_init py_float_ops)
                   \<lparr>connection_success_rate := Finite 0, total_connections := 1,
                    failed_connections := 1\<rparr>"

lemma score_after_first_failure:
  "score_after py_float_ops (PeerResilienceManager_init py_float_ops p) ''peer-b'' FAILED now
     = (None, failed_once)"
  by (simp add: score_after_def PeerResilienceManager_init_def get_peer_score_def
        update_connection_attempt_def failed_once_def PeerScore_init_def Let_def
        py_float_ops_def fl_ratio_def rne_def)

lemma entry_condition_failed_once:
  "entry_condition py_float_ops failed_once (Finite 1700000000)"
proof -
  have "fl_sub (Finite 1700000000) (Finite 0) = Finite 1700000000"
    by (simp add: fl_sub_def rne_eval)
  then show ?thesis
    by (simp add: entry_condition_def failed_once_def PeerScore_init_def py_float_ops_def
          rne_literals)
qed

lemma score_failed_once:
  "calculate_overall_score py_float_ops failed_once
     = Finite (3152519739159347 / 4503599627370496)"
  by (rule overall_score_finite[where c = 0 and t = 1 and u = 1])
     (simp_all add: failed_once_def PeerScore_init_def py_float_ops_def rne_eval)

lemma first_failure_default_policy:
  "update_peer_state (Suc n) py_float_ops (Finite 1700000000)
     (PeerResilienceManager_init py_float_ops None) ''peer-b'' FAILED
     = (None, (PeerResilienceManager_init py_float_ops None)
                \<lparr>peer_states := [''peer-b'' \<mapsto> FAILED],
                  peer_scores := [''peer-b'' \<mapsto> failed_once]\<rparr>)"
proof -
  have th: "blacklist_threshold (policy (PeerResilienceManager_init py_float_ops None))
              = Finite (3602879701896397 / 72057594037927936)"
    by (simp add: PeerResilienceManager_init_def ReconnectionPolicy_default_def py_float_ops_def
          rne_literals)
  have nl: "\<not> fl_less (calculate_overall_score py_float_ops failed_once)
                (Finite (3602879701896397 / 72057594037927936))"
    by (simp add: score_failed_once)
  show ?thesis
    using nl
    by (simp add: score_after_first_failure Let_def th)
       (simp add: PeerResilienceManager_init_def py_float_ops_def)
qed

text \<open>
  Claim C5, as stated: any one of the three entry conditions triggers blacklisting at a
  state update. \<^verbatim>\<open>update_peer_state\<close> also requires the overall score to be below the
  policy's \<open>blacklist_threshold\<close>. A manager with the default policy (threshold 0.05) that
  is told of the failed connection of an unknown peer, at the time 1700000000.0, scores the
  peer with \<open>last_seen = 0.0\<close>: the third condition holds, the overall score is 0.7, and the
  peer is not entered.
\<close>

theorem entry_condition_alone_counterexample:
  "score_after py_float_ops (PeerResilienceManager_init py_float_ops None) ''peer-b'' FAILED
     (Finite 1700000000) = (None, failed_once) \<and>
   fl_less (Finite 86400) (fl_sub (Finite 1700000000) (last_seen failed_once)) \<and>
   entry_condition py_float_ops failed_once (Finite 1700000000) \<and>
   should_blacklist py_float_ops failed_once (Finite 1700000000) \<and>
   calculate_overall_score py_float_ops failed_once = Finite (3152519739159347 / 4503599627370496) \<and>
   fst (update_peer_state 1000 py_float_ops (Finite 1700000000)
          (PeerResilienceManager_init py_float_ops None) ''peer-b'' FAILED) = None \<and>
   blacklisted_peers (snd (update_peer_state 1000 py_float_ops (Finite 1700000000)
          (PeerResilienceManager_init py_float_ops None) ''peer-b'' FAILED)) ''peer-b'' = None"
proof -
  have third: "fl_less (Finite 86400) (fl_sub (Finite 1700000000) (last_seen failed_once))"
    by (simp add: failed_once_def PeerScore_init_def py_float_ops_def fl_sub_def rne_eval)
  have run: "update_peer_state 1000 py_float_ops (Finite 1700000000)
     (PeerResilienceManager_init py_float_ops None) ''peer-b'' FAILED
     = (None, (PeerResilienceManager_init py_float_ops None)
                \<lparr>peer_states := [''peer-b'' \<mapsto> FAILED],
                  peer_scores := [''peer-b'' \<mapsto> failed_once]\<rparr>)"
    using first_failure_default_policy[of 999] by simp
  have bl: "blacklisted_peers (snd (update_peer_state 1000 py_float_ops (Finite 1700000000)
          (PeerResilienceManager_init py_float_ops None) ''peer-b'' FAILED)) ''peer-b'' = None"
    unfolding run by (simp add: PeerResilienceManager_init_def)
  have ok: "fst (update_peer_state 1000 py_float_ops (Finite 1700000000)
          (PeerResilienceManager_init py_float_ops None) ''peer-b'' FAILED) = None"
    unfolding run by simp
  from score_after_first_failure[of None "Finite 1700000000"] third entry_condition_failed_once
    score_failed_once ok bl
  show ?thesis
    unfolding should_blacklist_entry_condition by (intro conjI)
qed

text \<open>
  Claim C5, amended: at a state update a peer is entered into the blacklist (at the
  current time) when one of the three entry conditions holds for its score and, in
  addition, its overall score is below the policy's \<open>blacklist_threshold\<close>; when no
  condition holds, or the overall score is not below the threshold, or the update of the
  score has raised, the blacklist is left as it was and the call raises what the update of
  the score has raised, if anything. The conditions and the score are those of Python's
  floats, whatever their arithmetic. Two stack frames at least are assumed for the call.
  The call that enters the peer ends in \<^verbatim>\<open>RecursionError\<close>, by the mutual calls of
  \<^verbatim>\<open>update_peer_state\<close> and \<^verbatim>\<open>_blacklist_peer\<close>.
\<close>

theorem blacklist_entry_needs_low_score:
  assumes "2 \<le> frames"
  shows "(fst (score_after ops m peer st now) = None \<and>
          entry_condition ops (snd (score_after ops m peer st now)) now \<and>
          f_less ops (calculate_overall_score ops (snd (score_after ops m peer st now)))
            (blacklist_threshold (policy m))
            \<longrightarrow> blacklisted_peers (snd (update_peer_state frames ops now m peer st))
                  = (blacklisted_peers m)(peer \<mapsto> now) \<and>
                fst (update_peer_state frames ops now m peer st) = Some RecursionError) \<and>
         (\<not> (fst (score_after ops m peer st now) = None \<and>
             entry_condition ops (snd (score_after ops m peer st now)) now \<and>
             f_less ops (calculate_overall_score ops (snd (score_after ops m peer st now)))
               (blacklist_threshold (policy m)))
            \<longrightarrow> blacklisted_peers (snd (update_peer_state frames ops now m peer st))
                  = blacklisted_peers m \<and>
                fst (update_peer_state frames ops now m peer st)
                  = fst (score_after ops m peer st now))"
proof -
  from assms obtain k where fr: "frames = Suc (Suc k)"
    by (metis Suc_le_D numeral_2_eq_2 Suc_le_mono)
  let ?sc = "snd (score_after ops m peer st now)"
  let ?m1 = "m\<lparr>peer_states := (peer_states m)(peer \<mapsto> st),
               peer_scores := (peer_scores m)(peer \<mapsto> ?sc)\<rparr>"
  let ?trig = "fst (score_after ops m peer st now) = None \<and> entry_condition ops ?sc now \<and>
               f_less ops (calculate_overall_score ops ?sc) (blacklist_threshold (policy m))"
  have b: "blacklisted_peers (snd (blacklist_peer (Suc k) ops now ?m1 peer ?sc))
             = (blacklisted_peers m)(peer \<mapsto> now)"
    using conjunct2[OF blacklist_changes[of "Suc k" ops now peer]]
    by (simp del: blacklist_peer.simps update_peer_state.simps)
  have yes: "blacklisted_peers (snd (update_peer_state frames ops now m peer st))
               = (blacklisted_peers m)(peer \<mapsto> now)" if ?trig
  proof (cases "blacklist_peer (Suc k) ops now ?m1 peer ?sc")
    case (Pair e m2)
    with b that show ?thesis
      unfolding fr
      by (cases e) (simp_all add: should_blacklist_entry_condition Let_def
                      del: blacklist_peer.simps)
  qed
  have raises: "fst (update_peer_state frames ops now m peer st) = Some RecursionError" if ?trig
    using that blacklisting_raises_RecursionError[of ops m peer st now frames]
    by (simp add: should_blacklist_entry_condition
          del: blacklist_peer.simps update_peer_state.simps)
  have no: "blacklisted_peers (snd (update_peer_state frames ops now m peer st))
              = blacklisted_peers m \<and>
            fst (update_peer_state frames ops now m peer st)
              = fst (score_after ops m peer st now)"
    if "\<not> ?trig"
    using that unfolding fr
    by (auto simp: should_blacklist_entry_condition Let_def split: option.splits
          simp del: blacklist_peer.simps)
  from yes raises no show ?thesis by blast
qed

theorem blacklist_entry_needs_low_score_witness:
  "(2::nat) \<le> 1000 \<and>
   fst (score_after py_float_ops (PeerResilienceManager_init py_float_ops (Some strict_policy))
          ''peer-b'' FAILED (Finite 1700000000)) = None \<and>
   entry_condition py_float_ops
     (snd (score_after py_float_ops (PeerResilienceManager_init py_float_ops (Some strict_policy))
             ''peer-b'' FAILED (Finite 1700000000))) (Finite 1700000000) \<and>
   f_less py_float_ops
     (calculate_overall_score py_float_ops
        (snd (score_after py_float_ops (PeerResilienceManager_init py_float_ops (Some strict_policy))
                ''peer-b'' FAILED (Finite 1700000000))))
     (blacklist_threshold (policy (PeerResilienceManager_init py_float_ops (Some strict_policy)))) \<and>
   blacklisted_peers (snd (update_peer_state 1000 py_float_ops (Finite 1700000000)
      (PeerResilienceManager_init py_float_ops (Some strict_policy)) ''peer-b'' FAILED)) ''peer-b''
     = Some (Finite 1700000000) \<and>
   fst (update_peer_state 1000 py_float_ops (Finite 1700000000)
      (PeerResilienceManager_init py_float_ops (Some strict_policy)) ''peer-b'' FAILED)
     = Some RecursionError"
proof -
  let ?m = "PeerResilienceManager_init py_float_ops (Some strict_policy)"
  have fr: "(2::nat) \<le> 1000" by simp
  have sa: "score_after py_float_ops ?m ''peer-b'' FAILED (Finite 1700000000) = (None, failed_once)"
    by (rule score_after_first_failure)
  have th: "blacklist_threshold (policy ?m) = Finite (3 / 4)"
    by (simp add: PeerResilienceManager_init_def strict_policy_def rne_literals)
  have low: "f_less py_float_ops (calculate_overall_score py_float_ops failed_once)
               (blacklist_threshold (policy ?m))"
    unfolding th score_failed_once by (simp add: py_float_ops_def)
  from blacklist_entry_needs_low_score[OF fr, of py_float_ops ?m "''peer-b''" FAILED
      "Finite 1700000000"] entry_condition_failed_once low
  have r: "blacklisted_peers (snd (update_peer_state 1000 py_float_ops (Finite 1700000000) ?m
      ''peer-b'' FAILED)) = (blacklisted_peers ?m)(''peer-b'' \<mapsto> Finite 1700000000) \<and>
    fst (update_peer_state 1000 py_float_ops (Finite 1700000000) ?m ''peer-b'' FAILED)
      = Some RecursionError"
    unfolding sa by simp
  then have "blacklisted_peers (snd (update_peer_state 1000 py_float_ops (Finite 1700000000) ?m
      ''peer-b'' FAILED)) ''peer-b'' = Some (Finite 1700000000)"
    by simp
  with r fr entry_condition_failed_once low show ?thesis unfolding sa by simp
qed

section \<open>discovery/beequiet.py\<close>

text \<open>The values \<^verbatim>\<open>json.loads\<close> returns, and Python's truth test on them.\<close>

datatype json =
  JNull | JBool bool | JInt int | JReal real | JStr string | JList "json list"
  | JObj "(string \<times> json) list"

fun truthy :: "json \<Rightarrow> bool" where
  "truthy JNull = False"
| "truthy (JBool b) = b"
| "truthy (JInt n) = (n \<noteq> 0)"
| "truthy (JReal x) = (x \<noteq> 0)"
| "truthy (JStr s) = (s \<noteq> [])"
| "truthy (JList l) = (l \<noteq> [])"
| "truthy (JObj kvs) = (kvs \<noteq> [])"

text \<open>\<^verbatim>\<open>message_data.get(key)\<close>: of a repeated key the last value counts, a missing key gives
  \<^verbatim>\<open>None\<close>; on a value that is not an object the call raises \<^verbatim>\<open>AttributeError\<close> (here
  \<open>None\<close>).\<close>

definition json_get :: "json \<Rightarrow> string \<Rightarrow> json option" where
  "json_get v key =
     (case v of
        JObj kvs \<Rightarrow> Some (case map_of (rev kvs) key of None \<Rightarrow> JNull | Some x \<Rightarrow> x)
      | _ \<Rightarrow> None)"

text \<open>\<^verbatim>\<open>s.split(":")\<close>.\<close>

fun split_colon :: "string \<Rightarrow> string list" where
  "split_colon [] = [[]]"
| "split_colon (c # cs) =
     (case split_colon cs of
        [] \<Rightarrow> [[c]]
      | w # ws \<Rightarrow> if c = CHR '':'' then [] # w # ws else (c # w) # ws)"

text \<open>A record of \<open>_discovered_peers\<close>; the peer id is the JSON value of the message.\<close>

record peer_info =
  pi_peer_id :: json
  pi_address :: string
  pi_port :: int
  pi_last_seen :: real
  pi_protocol :: string

text \<open>The datagrams handed to the transport, the latest first.\<close>

datatype packet = Packet nat bytes "string \<times> int"

text \<open>Of a \<^verbatim>\<open>BeeQuietDiscovery\<close>: its peer id, the two maps keyed by the address string
  \<^verbatim>\<open>host:port\<close>, whether a transport and a discovery callback are set, the peers the
  callback has been called with and the datagrams sent.\<close>

record BeeQuietDiscovery =
  bq_peer_id :: string
  session_keys :: "string \<Rightarrow> bytes option"
  discovered_peers :: "string \<Rightarrow> peer_info option"
  has_transport :: bool
  on_peer_discovered :: bool
  discovered_calls :: "peer_info list"
  sent :: "packet list"

definition BeeQuietDiscovery_init :: "string \<Rightarrow> bool \<Rightarrow> BeeQuietDiscovery" where
  "BeeQuietDiscovery_init pid callback =
     \<lparr>bq_peer_id = pid, session_keys = Map.empty, discovered_peers = Map.empty,
      has_transport = False, on_peer_discovered = callback, discovered_calls = [], sent = []\<rparr>"

text \<open>\<^verbatim>\<open>_derive_session_key\<close>: HKDF of the \<^verbatim>\<open>cryptography\<close> library over BLAKE2b-512. The
  library function is the parameter \<open>hkdf salt ikm info length\<close>.\<close>

definition session_key_info :: bytes where
  "session_key_info = map of_char ''beenet-beequiet-session-key''"

definition derive_session_key ::
  "(bytes \<Rightarrow> bytes \<Rightarrow> bytes \<Rightarrow> nat \<Rightarrow> bytes) \<Rightarrow> bytes \<Rightarrow> bytes \<Rightarrow> bytes" where
  "derive_session_key hkdf nonce response = hkdf nonce response session_key_info 32"

text \<open>The JSON payloads of the two plaintext messages, as the code builds them.\<close>

definition who_is_here_message :: "string \<Rightarrow> bytes \<Rightarrow> int \<Rightarrow> json" where
  "who_is_here_message pid nonce timestamp =
     JObj [(''peer_id'', JStr pid), (''nonce'', JStr (to_hex nonce)), (''timestamp'', JInt timestamp)]"

definition i_am_here_message :: "string \<Rightarrow> bytes \<Rightarrow> int \<Rightarrow> json" where
  "i_am_here_message pid response timestamp =
     JObj [(''peer_id'', JStr pid), (''response'', JStr (to_hex response)),
           (''timestamp'', JInt timestamp)]"

text \<open>\<^verbatim>\<open>send_who_is_here\<close>: \<open>nonce\<close> is the value of \<^verbatim>\<open>secrets.token_bytes(16)\<close>, \<open>encode\<close> the
  serialisation \<^verbatim>\<open>json.dumps(...).encode("utf-8")\<close>. The nonce goes into the datagram and
  nowhere else.\<close>

definition send_who_is_here ::
  "(json \<Rightarrow> bytes) \<Rightarrow> BeeQuietDiscovery \<Rightarrow> bytes \<Rightarrow> int \<Rightarrow> error option \<times> BeeQuietDiscovery" where
  "send_who_is_here encode d nonce timestamp =
     (if \<not> has_transport d then (Some DiscoveryError, d)
      else (None, d\<lparr>sent := Packet 1 (encode (who_is_here_message (bq_peer_id d) nonce timestamp))
                              (''239.255.7.7'', 7777) # sent d\<rparr>))"

text \<open>\<^verbatim>\<open>send_i_am_here\<close>: \<open>response_data\<close> is the value of \<^verbatim>\<open>secrets.token_bytes(16)\<close>, \<open>show\<close>
  the formatting of the port in \<^verbatim>\<open>f"{host}:{port}"\<close>. The responder derives the session key
  and stores it under the originator's address.\<close>

definition send_i_am_here ::
  "(bytes \<Rightarrow> bytes \<Rightarrow> bytes \<Rightarrow> nat \<Rightarrow> bytes) \<Rightarrow> (json \<Rightarrow> bytes) \<Rightarrow> (int \<Rightarrow> string)
     \<Rightarrow> BeeQuietDiscovery \<Rightarrow> bytes \<Rightarrow> string \<times> int \<Rightarrow> bytes \<Rightarrow> int
     \<Rightarrow> error option \<times> BeeQuietDiscovery" where
  "send_i_am_here hkdf encode show d nonce peer_address response_data timestamp =
     (if \<not> has_transport d then (Some DiscoveryError, d)
      else (let session_key = derive_session_key hkdf nonce response_data;
                target_addr = fst peer_address @ '':'' @ show (snd peer_address);
                d = d\<lparr>session_keys := (session_keys d)(target_addr \<mapsto> session_key)\<rparr>
            in (None, d\<lparr>sent := Packet 2
                           (encode (i_am_here_message (bq_peer_id d) response_data timestamp))
                           peer_address # sent d\<rparr>)))"

text \<open>\<^verbatim>\<open>_handle_i_am_here\<close>. \<open>payload\<close> is the result of
  \<^verbatim>\<open>json.loads(payload.decode("utf-8"))\<close>, \<open>None\<close> when that raises; \<open>parse_int\<close> is Python's
  \<^verbatim>\<open>int\<close> on a string, \<open>None\<close> when it raises; \<open>now\<close> is \<^verbatim>\<open>time.time()\<close>. Every exception is
  caught and logged, and the handler returns. The bytes decoded from the response are
  not used.\<close>

definition handle_i_am_here ::
  "(string \<Rightarrow> int option) \<Rightarrow> real \<Rightarrow> BeeQuietDiscovery \<Rightarrow> json option \<Rightarrow> string
     \<Rightarrow> BeeQuietDiscovery" where
  "handle_i_am_here parse_int now d payload peer_addr =
     (case payload of
        None \<Rightarrow> d
      | Some message_data \<Rightarrow>
          (case (json_get message_data ''peer_id'', json_get message_data ''response'') of
             (Some peer_id, Some response_hex) \<Rightarrow>
               if \<not> truthy peer_id then d
               else if \<not> truthy response_hex then d
               else if peer_id = JStr (bq_peer_id d) then d
               else (case response_hex of
                       JStr hex \<Rightarrow>
                         (case fromhex hex of
                            None \<Rightarrow> d
                          | Some response \<Rightarrow>
                              (case (py_index (split_colon peer_addr) 0,
                                     py_index (split_colon peer_addr) 1) of
                                 (Some a, Some p) \<Rightarrow>
                                   (case parse_int p of
                                      None \<Rightarrow> d
                                    | Some port_number \<Rightarrow>
                                        (let info = \<lparr>pi_peer_id = peer_id, pi_address = a,
                                                     pi_port = port_number, pi_last_seen = now,
                                                     pi_protocol = ''beenet-beequiet''\<rparr>;
                                             d = d\<lparr>discovered_peers :=
                                                     (discovered_peers d)(peer_addr \<mapsto> info)\<rparr>
                                         in if on_peer_discovered d
                                            then d\<lparr>discovered_calls := info # discovered_calls d\<rparr>
                                            else d))
                               | _ \<Rightarrow> d))
                     | _ \<Rightarrow> d)
           | _ \<Rightarrow> d))"

text \<open>The AEAD of the \<^verbatim>\<open>cryptography\<close> library, \<^verbatim>\<open>ChaCha20Poly1305(key)\<close> with
  \<^verbatim>\<open>encrypt(nonce, data, None)\<close> and \<^verbatim>\<open>decrypt(nonce, data, None)\<close>, is a pair of parameters:
  \<open>seal key nonce plaintext\<close> gives ciphertext and tag, \<open>unseal key nonce data\<close> the
  plaintext or \<open>None\<close> for \<^verbatim>\<open>InvalidTag\<close>. The library refuses a key that is not 32 bytes
  and a nonce that is not 12 bytes long.\<close>

type_synonym seal_fun = "bytes \<Rightarrow> bytes \<Rightarrow> bytes \<Rightarrow> bytes"

definition normalize_key :: "bytes \<Rightarrow> bytes" where
  "normalize_key session_key =
     (if length session_key \<noteq> 32
      then (if length session_key < 32
            then session_key @ replicate (32 - length session_key) 0
            else take 32 session_key)
      else session_key)"






definition aead_tag_16 :: "seal_fun \<Rightarrow> bool" where
  "aead_tag_16 seal =
     (\<forall>k n p. length k = 32 \<and> length n = 12 \<longrightarrow> length (seal k n p) = length p + 16)"

text \<open>A sealing function of that shape, for instantiating the results at concrete inputs:
  the plaintext followed by the first 16 bytes of the key in place of a tag (it hides
  nothing).\<close>

definition sample_seal :: seal_fun where
  "sample_seal k n p = p @ take 16 k"


subsection \<open>The originator's handling of I\_AM\_HERE\<close>

lemma handle_i_am_here_keeps_session_keys:
  "session_keys (handle_i_am_here parse_int now d payload peer_addr) = session_keys d"
  by (simp add: handle_i_am_here_def Let_def
        split: option.splits prod.splits json.splits)

lemma send_who_is_here_keeps_nonce_nowhere:
  "session_keys (snd (send_who_is_here encode d nonce ts)) = session_keys d \<and>
   discovered_peers (snd (send_who_is_here encode d nonce ts)) = discovered_peers d"
  by (simp add: send_who_is_here_def)

lemma send_i_am_here_installs_key:
  "has_transport d \<Longrightarrow>
   session_keys (snd (send_i_am_here hkdf encode show d nonce (h, p) response ts))
     (h @ '':'' @ show p) = Some (derive_session_key hkdf nonce response)"
  by (simp add: send_i_am_here_def Let_def)

lemma handle_i_am_here_records_peer:
  assumes "pid \<noteq> []" "pid \<noteq> bq_peer_id d" "hex \<noteq> []" "fromhex hex = Some response"
    and "split_colon peer_addr = [a, p]" "parse_int p = Some n"
  shows "discovered_peers
           (handle_i_am_here parse_int now d
              (Some (JObj [(''peer_id'', JStr pid), (''response'', JStr hex), (''timestamp'', t)]))
              peer_addr) peer_addr
         = Some \<lparr>pi_peer_id = JStr pid, pi_address = a, pi_port = n, pi_last_seen = now,
                 pi_protocol = ''beenet-beequiet''\<rparr>"
  using assms
  by (simp add: handle_i_am_here_def json_get_def py_index_def Let_def)

text \<open>An originator \<open>peer-a\<close> with a transport, and the I\_AM\_HERE message of \<open>peer-b\<close> with a
  16-byte response, received from \<open>10.0.0.2:7777\<close>.\<close>

definition originator :: BeeQuietDiscovery where
  "originator = (BeeQuietDiscovery_init ''peer-a'' False)\<lparr>has_transport := True\<rparr>"

definition sample_response :: bytes where
  "sample_response = [0xab, 0x01, 0x02, 0x03, 0x04, 0x05, 0x06, 0x07,
                      0x08, 0x09, 0x0a, 0x0b, 0x0c, 0x0d, 0x0e, 0xff]"

definition sample_parse_int :: "string \<Rightarrow> int option" where
  "sample_parse_int s = (if s = ''7777'' then Some 7777 else None)"

lemma to_hex_sample: "to_hex sample_response = ''ab0102030405060708090a0b0c0d0eff''"
  by (simp add: to_hex_def sample_response_def hex_char_def char_of_def bit_Suc_0_iff)

lemma fromhex_sample: "fromhex ''ab0102030405060708090a0b0c0d0eff'' = Some sample_response"
  by (simp add: hex_value_def is_space_def sample_response_def)

lemma split_sample: "split_colon ''10.0.0.2:7777'' = [''10.0.0.2'', ''7777'']"
  by simp


text \<open>
  Claim C4 says that the originator, on a valid I\_AM\_HERE with a hex response from another
  peer, records the peer and installs for the sender's address the session key derived
  from its own WHO nonce and the response. \<^verbatim>\<open>_handle_i_am_here\<close> records the peer; it decodes
  the response and drops the bytes, derives no key and leaves \<open>_session_keys\<close> as it was for
  every input (lemma \<open>handle_i_am_here_keeps_session_keys\<close>), and \<^verbatim>\<open>send_who_is_here\<close> keeps
  no copy of the nonce. The responder's \<^verbatim>\<open>send_i_am_here\<close> does install the key
  (lemma \<open>send_i_am_here_installs_key\<close>).
\<close>

theorem i_am_here_installs_no_session_key:
  "discovered_peers
     (handle_i_am_here sample_parse_int 1000 originator
        (Some (i_am_here_message ''peer-b'' sample_response 1700000000)) ''10.0.0.2:7777'')
     ''10.0.0.2:7777''
     = Some \<lparr>pi_peer_id = JStr ''peer-b'', pi_address = ''10.0.0.2'', pi_port = 7777,
             pi_last_seen = 1000, pi_protocol = ''beenet-beequiet''\<rparr> \<and>
   session_keys
     (handle_i_am_here sample_parse_int 1000 originator
        (Some (i_am_here_message ''peer-b'' sample_response 1700000000)) ''10.0.0.2:7777'')
     ''10.0.0.2:7777'' = None"
proof -
  have rec: "discovered_peers
     (handle_i_am_here sample_parse_int 1000 originator
        (Some (i_am_here_message ''peer-b'' sample_response 1700000000)) ''10.0.0.2:7777'')
     ''10.0.0.2:7777''
     = Some \<lparr>pi_peer_id = JStr ''peer-b'', pi_address = ''10.0.0.2'', pi_port = 7777,
             pi_last_seen = 1000, pi_protocol = ''beenet-beequiet''\<rparr>"
    unfolding i_am_here_message_def to_hex_sample
    by (rule handle_i_am_here_records_peer[OF _ _ _ fromhex_sample split_sample])
       (simp_all add: originator_def BeeQuietDiscovery_init_def sample_parse_int_def)
  have "session_keys originator ''10.0.0.2:7777'' = None"
    by (simp add: originator_def BeeQuietDiscovery_init_def)
  with rec show ?thesis
    by (simp only: handle_i_am_here_keeps_session_keys simp_thms)
qed

subsection \<open>The AEAD envelope\<close>


lemma length_normalize_key: "length (normalize_key k) = 32"
  by (simp add: normalize_key_def)


lemma sample_aead_tag_16: "aead_tag_16 sample_seal"
  by (simp add: aead_tag_16_def sample_seal_def)








end
